theory Spec2Isabelle
  imports Complex_Main "HOL-Library.Sublist" "HOL-Library.Multiset"
begin

section \<open>The reflect\_on\_past search handler of claude-self-reflect\<close>

text \<open>
  Shallow embedding of \<^verbatim>\<open>handleReflectOnPast\<close> and \<^verbatim>\<open>getVoyageCollections\<close> of
  \<^verbatim>\<open>src/archived/typescript-mcp/claude-self-reflection/src/index.ts\<close>.

  Conventions of the model.
  \<^item> A finite JavaScript number is a \<open>real\<close>: the rounding and the range of doubles, and the
    sign of zero, are not modelled. The values that are not finite numbers are modelled
    where the code can produce them from finite ones, which is in the division by the decay
    scale: type \<open>jsnum\<close> adds \<open>NaN\<close> and the two infinities, and the adjusted score of a
    candidate, hence the score of a result, is a \<open>jsnum\<close>.
  \<^item> A JavaScript string is a \<open>string\<close>, a list of characters of code below 256 (the range
    of type \<open>char\<close>, read as ISO 8859-1); on these \<open>toLowerCase\<close> and the class \<open>\s\<close> are
    modelled in full. Strings with other characters are outside the model.
  \<^item> A value that may be \<open>undefined\<close> is an \<open>option\<close>. The arguments of the call may be
    missing altogether; when they are present their fields have the types of the input
    schema of the tool, and \<open>query\<close>, which the schema requires, is there.
  \<^item> The vector store, the embedding service and the clock are parameters (record \<open>env\<close>);
    a call that throws returns \<open>None\<close>.
  \<^item> Every call to the store or to the embedding service is recorded, in program order,
    in a list of \<open>io_event\<close>s returned beside the result.
  \<^item> The diagnostic output on \<open>console.error\<close> is left out, and the response carries the
    list of results instead of the text rendered from it.
\<close>

subsection \<open>JavaScript numbers\<close>

datatype jsnum = Num real | PosInf | NegInf | NaN

text \<open>\<^verbatim>\<open>x / y\<close> on two finite numbers: a division by zero gives an infinity, or \<open>NaN\<close> for \<open>0 / 0\<close>.\<close>

definition js_div :: "real \<Rightarrow> real \<Rightarrow> jsnum" where
  "js_div x y =
     (if y \<noteq> 0 then Num (x / y)
      else if x = 0 then NaN
      else if 0 < x then PosInf
      else NegInf)"

text \<open>\<^verbatim>\<open>Math.exp(v)\<close>\<close>

fun js_exp :: "jsnum \<Rightarrow> jsnum" where
  "js_exp (Num x) = Num (exp x)"
| "js_exp PosInf = PosInf"
| "js_exp NegInf = Num 0"
| "js_exp NaN = NaN"

text \<open>\<^verbatim>\<open>w * v\<close> with \<open>w\<close> finite: zero times an infinity is \<open>NaN\<close>.\<close>

fun js_times :: "real \<Rightarrow> jsnum \<Rightarrow> jsnum" where
  "js_times w (Num x) = Num (w * x)"
| "js_times w PosInf = (if 0 < w then PosInf else if w < 0 then NegInf else NaN)"
| "js_times w NegInf = (if 0 < w then NegInf else if w < 0 then PosInf else NaN)"
| "js_times w NaN = NaN"

text \<open>\<^verbatim>\<open>s + v\<close> with \<open>s\<close> finite.\<close>

fun js_plus :: "real \<Rightarrow> jsnum \<Rightarrow> jsnum" where
  "js_plus s (Num x) = Num (s + x)"
| "js_plus s PosInf = PosInf"
| "js_plus s NegInf = NegInf"
| "js_plus s NaN = NaN"

text \<open>\<^verbatim>\<open>v >= m\<close> with \<open>m\<close> finite: false for \<open>NaN\<close>.\<close>

fun js_ge :: "jsnum \<Rightarrow> real \<Rightarrow> bool" where
  "js_ge (Num x) m = (m \<le> x)"
| "js_ge PosInf m = True"
| "js_ge NegInf m = False"
| "js_ge NaN m = False"

text \<open>\<^verbatim>\<open>b - a\<close>: the difference of two equal infinities is \<open>NaN\<close>.\<close>

fun js_minus :: "jsnum \<Rightarrow> jsnum \<Rightarrow> jsnum" where
  "js_minus (Num x) (Num y) = Num (x - y)"
| "js_minus NaN b = NaN"
| "js_minus a NaN = NaN"
| "js_minus PosInf PosInf = NaN"
| "js_minus NegInf NegInf = NaN"
| "js_minus PosInf b = PosInf"
| "js_minus NegInf b = NegInf"
| "js_minus (Num x) PosInf = NegInf"
| "js_minus (Num x) NegInf = PosInf"

text \<open>\<^verbatim>\<open>v > 0\<close>\<close>

fun js_positive :: "jsnum \<Rightarrow> bool" where
  "js_positive (Num x) = (0 < x)"
| "js_positive PosInf = True"
| "js_positive NegInf = False"
| "js_positive NaN = False"

subsection \<open>JavaScript built-ins used by the handler\<close>

text \<open>\<^verbatim>\<open>a || d\<close> on a possibly undefined string: the empty string is falsy too.\<close>

definition js_or :: "string option \<Rightarrow> string \<Rightarrow> string" where
  "js_or a d = (case a of None \<Rightarrow> d | Some s \<Rightarrow> if s = [] then d else s)"

text \<open>\<^verbatim>\<open>Math.trunc\<close>, the rounding of \<open>ToIntegerOrInfinity\<close>.\<close>

definition js_trunc :: "real \<Rightarrow> int" where
  "js_trunc x = (if x < 0 then \<lceil>x\<rceil> else \<lfloor>x\<rfloor>)"

text \<open>\<^verbatim>\<open>xs.slice(0, e)\<close>: a negative end counts from the end of the array.\<close>

definition js_slice0 :: "'a list \<Rightarrow> real \<Rightarrow> 'a list" where
  "js_slice0 xs e =
     (let k = js_trunc e;
          len = int (length xs);
          final = (if k < 0 then max (len + k) 0 else min k len)
      in take (nat final) xs)"

text \<open>
  \<^verbatim>\<open>xs.sort((a, b) => b.score - a.score)\<close>. The comparator asks for \<open>b\<close> before \<open>a\<close> when
  the difference is positive, and leaves the two in place when it is zero or \<open>NaN\<close>. The
  sort of ECMAScript 2019 (the package asks for node 18 or later) is stable; it is
  modelled by the stable insertion sort. \<open>insert_desc score x ys\<close> puts \<open>x\<close>, which stood
  before the elements of \<open>ys\<close>, in front of the first element that the comparator does not
  ask to have before it. ECMAScript leaves the order open when the comparator is not
  consistent, which it is not on scores with \<open>NaN\<close>; the handler sorts no such list
  (lemmas \<open>searchCollection_no_NaN\<close> and \<open>textSearchCollection_no_NaN\<close>).
\<close>

fun insert_desc :: "('a \<Rightarrow> jsnum) \<Rightarrow> 'a \<Rightarrow> 'a list \<Rightarrow> 'a list" where
  "insert_desc score x [] = [x]"
| "insert_desc score x (y # ys) =
     (if js_positive (js_minus (score y) (score x)) then y # insert_desc score x ys
      else x # y # ys)"

fun sort_desc :: "('a \<Rightarrow> jsnum) \<Rightarrow> 'a list \<Rightarrow> 'a list" where
  "sort_desc score [] = []"
| "sort_desc score (x # xs) = insert_desc score x (sort_desc score xs)"

text \<open>
  \<^verbatim>\<open>s.toLowerCase()\<close> on characters of code below 256: the letters \<open>A\<close> to \<open>Z\<close> and the
  letters of codes 192 to 222, the multiplication sign 215 apart, move up by 32.
\<close>

definition toLowerChar :: "char \<Rightarrow> char" where
  "toLowerChar c =
     (let n = (of_char c :: nat)
      in if (65 \<le> n \<and> n \<le> 90) \<or> (192 \<le> n \<and> n \<le> 222 \<and> n \<noteq> 215)
         then char_of (n + 32) else c)"

definition toLowerCase :: "string \<Rightarrow> string" where
  "toLowerCase s = map toLowerChar s"

text \<open>
  The class \<open>\s\<close> on characters of code below 256: tab, line feed, vertical tab, form
  feed, carriage return, space and no-break space.
\<close>

definition is_space :: "char \<Rightarrow> bool" where
  "is_space c = (let n = (of_char c :: nat) in (9 \<le> n \<and> n \<le> 13) \<or> n = 32 \<or> n = 160)"

text \<open>
  \<^verbatim>\<open>s.split(/\s+/)\<close>. \<open>split_go inws cur rest\<close>: \<open>cur\<close> is the current piece, reversed;
  \<open>inws\<close> says that the last character read was whitespace. A separator at the start or
  at the end of the string gives an empty piece, and the empty string gives \<open>['''']\<close>.
\<close>

fun split_go :: "bool \<Rightarrow> string \<Rightarrow> string \<Rightarrow> string list" where
  "split_go inws cur [] = [rev cur]"
| "split_go inws cur (c # cs) =
     (if is_space c
      then (if inws then split_go True [] cs else rev cur # split_go True [] cs)
      else split_go False (c # cur) cs)"

definition split_ws :: "string \<Rightarrow> string list" where
  "split_ws s = split_go False [] s"

text \<open>\<^verbatim>\<open>text.includes(word)\<close>: \<open>word\<close> occurs in \<open>text\<close> as a contiguous piece.\<close>

fun js_includes :: "string \<Rightarrow> string \<Rightarrow> bool" where
  "js_includes [] w = (w = [])"
| "js_includes (c # cs) w = (prefix w (c # cs) \<or> js_includes cs w)"

text \<open>\<^verbatim>\<open>s.replace(pat, rep)\<close> with a string pattern: the first occurrence only.\<close>

fun replace_first :: "string \<Rightarrow> string \<Rightarrow> string \<Rightarrow> string" where
  "replace_first pat rep [] = (if pat = [] then rep else [])"
| "replace_first pat rep (c # cs) =
     (if prefix pat (c # cs) then rep @ drop (length pat) (c # cs)
      else c # replace_first pat rep cs)"

definition endsWith :: "string \<Rightarrow> string \<Rightarrow> bool" where
  "endsWith s suf = suffix suf s"

subsection \<open>Data\<close>

type_synonym vector = "real list"

text \<open>The payload of a stored point; field \<open>p_f\<close> is the source's \<open>payload.f\<close>.\<close>

record payload =
  p_text :: "string option"
  p_timestamp :: "string option"
  p_start_role :: "string option"
  p_role :: "string option"
  p_project :: "string option"
  p_project_name :: "string option"
  p_project_id :: "string option"
  p_conversation_id :: "string option"

text \<open>
  A point with a score of type \<open>'n\<close>. The store returns points with a finite score (a
  number of a JSON document; \<open>scroll\<close> returns no score, and the code reads none); the
  decay step makes points with a score of type \<open>jsnum\<close>.
\<close>

record 'n point =
  pt_id :: string
  pt_score :: 'n
  pt_payload :: "payload option"

text \<open>\<^verbatim>\<open>point.payload?.f\<close>\<close>

definition pl :: "'n point \<Rightarrow> (payload \<Rightarrow> string option) \<Rightarrow> string option" where
  "pl p f = (case pt_payload p of None \<Rightarrow> None | Some x \<Rightarrow> f x)"

record search_result =
  sr_id :: string
  sr_score :: jsnum
  sr_timestamp :: string
  sr_role :: string
  sr_excerpt :: string
  sr_projectName :: string
  sr_conversationId :: "string option"
  sr_collectionName :: string

text \<open>The arguments of the tool call, each optional one possibly undefined.\<close>

record args =
  a_query :: string
  a_limit :: "real option"
  a_project :: "string option"
  a_minScore :: "real option"
  a_crossProject :: "bool option"
  a_useDecay :: "bool option"

datatype isolation_mode = Isolated | Shared | Hybrid

text \<open>
  The constants read from the environment at start-up (lines 29 to 33), and the detected
  project. The two decay constants are the values of \<^verbatim>\<open>parseFloat\<close>; they are taken to be
  finite numbers, zero included.
\<close>

record config =
  ISOLATION_MODE :: isolation_mode
  ALLOW_CROSS_PROJECT :: bool
  ENABLE_MEMORY_DECAY :: bool
  DECAY_WEIGHT :: real
  DECAY_SCALE_DAYS :: real
  currentProject :: "string option"

record search_params =
  sp_vector :: vector
  sp_limit :: int
  sp_score_threshold :: "real option"
  sp_with_payload :: bool

record scroll_params =
  sc_limit :: int
  sc_with_payload :: bool
  sc_with_vector :: bool

datatype io_event =
    CreateEmbeddingService
  | GenerateEmbedding string
  | GetCollections
  | Search string search_params
  | Scroll string scroll_params

text \<open>
  The world outside the handler. \<open>parse_date s\<close> is \<^verbatim>\<open>new Date(s).getTime()\<close>, \<open>None\<close>
  for \<open>NaN\<close>; \<open>date_now c\<close> is the reading of \<^verbatim>\<open>Date.now()\<close> when the response of
  collection \<open>c\<close> is processed; \<open>now_iso\<close> is \<^verbatim>\<open>new Date().toISOString()\<close>.
\<close>

record env =
  createEmbeddingService :: "(string \<Rightarrow> vector option) option"
  getCollections :: "string list option"
  search :: "string \<Rightarrow> search_params \<Rightarrow> real point list option"
  scroll :: "string \<Rightarrow> scroll_params \<Rightarrow> real point list option"
  parse_date :: "string \<Rightarrow> real option"
  date_now :: "string \<Rightarrow> real"
  now_iso :: string

text \<open>The field of the server object that the handler reads and writes.\<close>

record server =
  embeddingService :: "(string \<Rightarrow> vector option) option"

text \<open>The codes of the protocol library's \<open>ErrorCode\<close>.\<close>

datatype error_code =
  ConnectionClosed | ParseError | InvalidRequest | MethodNotFound | InvalidParams | InternalError

text \<open>
  What the handler throws: the \<open>TypeError\<close> of the runtime, from the destructuring of
  arguments that are not there, or an \<open>McpError\<close> of its own.
\<close>

datatype thrown = TypeError | McpError error_code

text \<open>What the handler returns: one of its two fixed messages, or the results found.\<close>

datatype response = NoVoyageCollections | NoResults | Found "search_result list"

subsection \<open>The handler\<close>

definition initialize :: "env \<Rightarrow> server \<Rightarrow> server" where
  "initialize e s =
     (case createEmbeddingService e of
        None \<Rightarrow> s
      | Some svc \<Rightarrow> s\<lparr>embeddingService := Some svc\<rparr>)"

definition getVoyageCollections :: "env \<Rightarrow> string list" where
  "getVoyageCollections e =
     (case getCollections e of
        None \<Rightarrow> []
      | Some names \<Rightarrow> filter (\<lambda>name. endsWith name ''_voyage'') names)"

text \<open>Lines 285 to 296: the age of a point, 0 unless its timestamp is truthy and parses.\<close>

definition ageMs :: "env \<Rightarrow> real \<Rightarrow> 'n point \<Rightarrow> real" where
  "ageMs e now p =
     (case pl p p_timestamp of
        None \<Rightarrow> 0
      | Some ts \<Rightarrow>
          if ts = [] then 0
          else (case parse_date e ts of None \<Rightarrow> 0 | Some t \<Rightarrow> now - t))"

text \<open>
  Lines 281 and 299 to 316: the callback of the decay \<open>map\<close>. The result is the point
  with its score replaced by the adjusted score.
\<close>

definition applyDecay :: "config \<Rightarrow> env \<Rightarrow> real \<Rightarrow> real point \<Rightarrow> jsnum point" where
  "applyDecay cfg e now p =
     (let scaleMs = DECAY_SCALE_DAYS cfg * 24 * 60 * 60 * 1000;
          originalScore = pt_score p;
          decayFactor = js_exp (js_div (- ageMs e now p) scaleMs);
          adjustedScore = js_plus originalScore (js_times (DECAY_WEIGHT cfg) decayFactor)
      in \<lparr> pt_id = pt_id p, pt_score = adjustedScore, pt_payload = pt_payload p \<rparr>)"

text \<open>Lines 330 to 333.\<close>

definition decayFilterSort :: "real \<Rightarrow> real \<Rightarrow> jsnum point list \<Rightarrow> jsnum point list" where
  "decayFilterSort minScore limit ps =
     js_slice0 (sort_desc pt_score (filter (\<lambda>p. js_ge (pt_score p) minScore) ps)) limit"

text \<open>Lines 351 to 360 and 399 to 408: a point as a result of collection \<open>c\<close>.\<close>

definition deriveProject :: "string \<Rightarrow> string" where
  "deriveProject c = replace_first ''_voyage'' [] (replace_first ''conv_'' [] c)"

definition excerptOf :: "'n point \<Rightarrow> string" where
  "excerptOf p = take 500 (js_or (pl p p_text) []) @ ''...''"

definition toResult :: "env \<Rightarrow> string \<Rightarrow> jsnum \<Rightarrow> 'n point \<Rightarrow> search_result" where
  "toResult e c sc p =
     \<lparr> sr_id = pt_id p,
       sr_score = sc,
       sr_timestamp = js_or (pl p p_timestamp) (now_iso e),
       sr_role = js_or (pl p p_start_role) (js_or (pl p p_role) ''unknown''),
       sr_excerpt = excerptOf p,
       sr_projectName =
         js_or (pl p p_project) (js_or (pl p p_project_name) (js_or (pl p p_project_id) (deriveProject c))),
       sr_conversationId = pl p p_conversation_id,
       sr_collectionName = c \<rparr>"

definition decayParams :: "vector \<Rightarrow> real \<Rightarrow> search_params" where
  "decayParams qv limit =
     \<lparr> sp_vector = qv, sp_limit = \<lceil>limit * 3\<rceil>, sp_score_threshold = None, sp_with_payload = True \<rparr>"

definition plainParams :: "vector \<Rightarrow> real \<Rightarrow> real \<Rightarrow> search_params" where
  "plainParams qv limit minScore =
     \<lparr> sp_vector = qv, sp_limit = \<lceil>limit * 1.5\<rceil>, sp_score_threshold = Some minScore,
       sp_with_payload = True \<rparr>"

text \<open>
  Lines 256 to 365: the search of one collection. The result is the call made to the
  store and the results of the collection, \<open>[]\<close> when the call throws.
\<close>

definition searchCollection ::
  "config \<Rightarrow> env \<Rightarrow> bool \<Rightarrow> real \<Rightarrow> real \<Rightarrow> vector \<Rightarrow> string \<Rightarrow> io_event list \<times> search_result list"
where
  "searchCollection cfg e shouldUseDecay limit minScore qv c =
     (if shouldUseDecay then
        (Search c (decayParams qv limit) # [],
         case search e c (decayParams qv limit) of
           None \<Rightarrow> []
         | Some searchResponse \<Rightarrow>
             map (\<lambda>p. toResult e c (pt_score p) p)
               (decayFilterSort minScore limit
                 (map (applyDecay cfg e (date_now e c)) searchResponse)))
      else
        (Search c (plainParams qv limit minScore) # [],
         case search e c (plainParams qv limit minScore) of
           None \<Rightarrow> []
         | Some searchResponse \<Rightarrow> map (\<lambda>p. toResult e c (Num (pt_score p)) p) searchResponse))"

definition scrollParams :: scroll_params where
  "scrollParams = \<lparr> sc_limit = 100, sc_with_payload = True, sc_with_vector = False \<rparr>"

text \<open>Lines 393 to 398: the filter of the text search.\<close>

definition textMatches :: "string \<Rightarrow> 'n point \<Rightarrow> bool" where
  "textMatches query p =
     (let queryWords = split_ws (toLowerCase query);
          txt = toLowerCase (js_or (pl p p_text) [])
      in list_ex (\<lambda>word. js_includes txt word) queryWords)"

text \<open>Lines 385 to 413: the text search of one collection.\<close>

definition textSearchCollection ::
  "env \<Rightarrow> string \<Rightarrow> string \<Rightarrow> io_event list \<times> search_result list"
where
  "textSearchCollection e query c =
     (Scroll c scrollParams # [],
      case scroll e c scrollParams of
        None \<Rightarrow> []
      | Some points \<Rightarrow> map (toResult e c (Num 0.5)) (filter (textMatches query) points))"

text \<open>Lines 371 to 376: flatten, sort by score, keep the first \<open>limit\<close>.\<close>

definition aggregate :: "real \<Rightarrow> search_result list list \<Rightarrow> search_result list" where
  "aggregate limit allResults = js_slice0 (sort_desc sr_score (concat allResults)) limit"

text \<open>
  Lines 421 to 463: the end of the handler. With no result the collections are listed
  once more, for the message.
\<close>

definition finish :: "search_result list \<Rightarrow> io_event list \<times> response" where
  "finish results = (if results = [] then ([GetCollections], NoResults) else ([], Found results))"

text \<open>Lines 194 and 195: the defaults of the arguments, and the decay switch.\<close>

definition limitOf :: "args \<Rightarrow> real" where
  "limitOf a = (case a_limit a of None \<Rightarrow> 5 | Some l \<Rightarrow> l)"

definition minScoreOf :: "args \<Rightarrow> real" where
  "minScoreOf a = (case a_minScore a of None \<Rightarrow> 0.7 | Some m \<Rightarrow> m)"

definition shouldUseDecay :: "config \<Rightarrow> args \<Rightarrow> bool" where
  "shouldUseDecay cfg a = (case a_useDecay a of None \<Rightarrow> ENABLE_MEMORY_DECAY cfg | Some d \<Rightarrow> d)"

text \<open>
  Lines 193 to 471. The result is the server object after the call, the calls made to
  the embedding service and the store, and the error thrown or the response returned.
  The argument is \<open>None\<close> for a call without arguments: the destructuring of line 194,
  which stands before the \<open>try\<close> of line 214, then throws a \<open>TypeError\<close>, and nothing else
  happens. The arguments \<open>project\<close> and \<open>crossProject\<close> are read from the request at line
  194 and used nowhere; neither is the isolation manager built by the constructor.
\<close>

definition handleReflectOnPast ::
  "config \<Rightarrow> env \<Rightarrow> server \<Rightarrow> args option \<Rightarrow> server \<times> io_event list \<times> (thrown + response)"
where
  "handleReflectOnPast cfg e s0 arguments =
     (case arguments of
        None \<Rightarrow> (s0, [], Inl TypeError)
      | Some a \<Rightarrow>
         (let query = a_query a;
              limit = limitOf a;
              minScore = minScoreOf a;
              (s, t0) = (case embeddingService s0 of
                           None \<Rightarrow> (initialize e s0, [CreateEmbeddingService])
                         | Some _ \<Rightarrow> (s0, []))
          in case embeddingService s of
               Some svc \<Rightarrow>
                 (case svc query of
                    None \<Rightarrow> (s, t0 @ [GenerateEmbedding query], Inl (McpError InternalError))
                  | Some queryEmbedding \<Rightarrow>
                      (let voyageCollections = getVoyageCollections e;
                           t1 = t0 @ [GenerateEmbedding query, GetCollections]
                       in if voyageCollections = [] then (s, t1, Inr NoVoyageCollections)
                          else
                            (let searches =
                                   map (searchCollection cfg e (shouldUseDecay cfg a) limit minScore
                                          queryEmbedding)
                                     voyageCollections;
                                 results = aggregate limit (map snd searches);
                                 (t2, r) = finish results
                             in (s, t1 @ concat (map fst searches) @ t2, Inr r))))
             | None \<Rightarrow>
                 (let voyageCollections = getVoyageCollections e;
                      searches = map (textSearchCollection e query) voyageCollections;
                      results = js_slice0 (concat (map snd searches)) limit;
                      (t2, r) = finish results
                  in (s, t0 @ [GetCollections] @ concat (map fst searches) @ t2, Inr r))))"

subsection \<open>The tokens of a query, as the specification words them\<close>

text \<open>
  The specification speaks of the whitespace-delimited tokens of the query. \<open>split_each\<close>
  cuts a string at every whitespace character; the tokens are the pieces that are not
  empty. This is what the pieces of \<open>split_ws\<close>, taken from the code, are compared with.
\<close>

fun split_each :: "string \<Rightarrow> string list" where
  "split_each [] = [[]]"
| "split_each (c # cs) =
     (if is_space c then [] # split_each cs
      else (c # hd (split_each cs)) # tl (split_each cs))"

definition spec_tokens :: "string \<Rightarrow> string list" where
  "spec_tokens q = filter (\<lambda>w. w \<noteq> []) (split_each q)"

subsection \<open>A store that answers every query\<close>

text \<open>
  The world \<open>e\<close> where each query of the store that throws is answered by the empty
  list instead: what the handler is compared with to say that a failing collection counts
  as an empty one.
\<close>

definition failuresAsEmpty :: "env \<Rightarrow> env" where
  "failuresAsEmpty e =
     e\<lparr> search := (\<lambda>c sp. Some (case search e c sp of None \<Rightarrow> [] | Some ps \<Rightarrow> ps)),
        scroll := (\<lambda>c sc. Some (case scroll e c sc of None \<Rightarrow> [] | Some ps \<Rightarrow> ps)) \<rparr>"

subsection \<open>A store used for the concrete instances\<close>

text \<open>
  Three collections of the naming convention, one of them unreachable, and one collection
  outside it. The project of the running server is \<open>projA\<close>. The store answers a search
  with its points in descending order of similarity, from the threshold up, cut at the
  limit asked for; it answers a scroll with the first points of the collection.
\<close>

definition ex_payload :: "string \<Rightarrow> string option \<Rightarrow> payload" where
  "ex_payload txt ts =
     \<lparr> p_text = Some txt, p_timestamp = ts, p_start_role = None, p_role = None,
       p_project = None, p_project_name = None, p_project_id = None,
       p_conversation_id = None \<rparr>"

definition ex_point :: "string \<Rightarrow> 'n \<Rightarrow> string \<Rightarrow> string option \<Rightarrow> 'n point" where
  "ex_point i sc txt ts = \<lparr> pt_id = i, pt_score = sc, pt_payload = Some (ex_payload txt ts) \<rparr>"

definition ex_a1 :: "real point" where
  "ex_a1 = ex_point ''a1'' 0.65 ''discussed database indexing strategy'' None"

definition ex_a2 :: "real point" where
  "ex_a2 = ex_point ''a2'' 0.5 ''unrelated notes'' (Some ''not a date'')"

definition ex_b1 :: "real point" where
  "ex_b1 = ex_point ''b1'' 0.9 ''Discussed Database INDEXING strategy''
             (Some ''2024-03-31T00:00:00.000Z'')"

definition ex_old :: "real point" where
  "ex_old = ex_point ''o1'' 0.6 ''an old note'' (Some ''2024-01-01T00:00:00.000Z'')"

definition ex_store :: "string \<Rightarrow> real point list option" where
  "ex_store c =
     (if c = ''conv_projA_voyage'' then Some [ex_a1, ex_a2]
      else if c = ''conv_projB_voyage'' then Some [ex_b1]
      else if c = ''conversations'' then Some [ex_old]
      else None)"

definition ex_search :: "string \<Rightarrow> search_params \<Rightarrow> real point list option" where
  "ex_search c sp =
     (case ex_store c of
        None \<Rightarrow> None
      | Some ps \<Rightarrow>
          Some (take (nat (sp_limit sp))
                  (filter (\<lambda>p. case sp_score_threshold sp of
                                  None \<Rightarrow> True
                                | Some th \<Rightarrow> th \<le> pt_score p) ps)))"

definition ex_scroll :: "string \<Rightarrow> scroll_params \<Rightarrow> real point list option" where
  "ex_scroll c sc =
     (case ex_store c of None \<Rightarrow> None | Some ps \<Rightarrow> Some (take (nat (sc_limit sc)) ps))"

definition ex_parse_date :: "string \<Rightarrow> real option" where
  "ex_parse_date s =
     (if s = ''2024-03-31T00:00:00.000Z'' then Some 1711843200000
      else if s = ''2024-01-01T00:00:00.000Z'' then Some 1704067200000
      else None)"

definition ex_embed :: "string \<Rightarrow> vector option" where
  "ex_embed q = Some [1, 0]"

definition ex_env :: env where
  "ex_env =
     \<lparr> createEmbeddingService = Some ex_embed,
       getCollections =
         Some [''conv_projA_voyage'', ''conversations'', ''conv_projB_voyage'', ''conv_down_voyage''],
       search = ex_search,
       scroll = ex_scroll,
       parse_date = ex_parse_date,
       date_now = (\<lambda>c. 1711843200000),
       now_iso = ''2024-03-31T00:00:00.000Z'' \<rparr>"

text \<open>The same world with no embedding service to be had.\<close>

definition ex_env_degraded :: env where
  "ex_env_degraded = ex_env\<lparr>createEmbeddingService := None\<rparr>"

definition ex_cfg :: config where
  "ex_cfg =
     \<lparr> ISOLATION_MODE = Hybrid, ALLOW_CROSS_PROJECT = False, ENABLE_MEMORY_DECAY = True,
       DECAY_WEIGHT = 0.3, DECAY_SCALE_DAYS = 90, currentProject = Some ''projA'' \<rparr>"


definition ex_server :: server where
  "ex_server = \<lparr> embeddingService = None \<rparr>"

definition ex_args :: "string \<Rightarrow> real option \<Rightarrow> real option \<Rightarrow> bool option \<Rightarrow> args" where
  "ex_args q limit minScore useDecay =
     \<lparr> a_query = q, a_limit = limit, a_project = None, a_minScore = minScore,
       a_crossProject = Some False, a_useDecay = useDecay \<rparr>"

section \<open>Auxiliary facts\<close>

subsection \<open>Slicing and sorting\<close>

lemma js_trunc_real [simp]: "js_trunc (real k) = int k"
  by (simp add: js_trunc_def)

lemma js_slice0_nat: "js_slice0 xs (real k) = take k xs"
  by (simp add: js_slice0_def Let_def min_def)

lemma js_slice0_Nil [simp]: "js_slice0 [] e = []"
  by (simp add: js_slice0_def Let_def)

lemma js_slice0_prefix: "prefix (js_slice0 xs e) xs"
  by (simp add: js_slice0_def Let_def take_is_prefix)

lemma set_js_slice0: "set (js_slice0 xs e) \<subseteq> set xs"
  by (simp add: js_slice0_def Let_def set_take_subset)

lemma sorted_js_slice0:
  "sorted_wrt P xs \<Longrightarrow> sorted_wrt P (js_slice0 xs e)"
  by (simp add: js_slice0_def Let_def sorted_wrt_take)

lemma take_drop_sorted_wrt:
  assumes "sorted_wrt P ys"
  shows "\<forall>a \<in> set (take k ys). \<forall>b \<in> set (drop k ys). P a b"
proof -
  have "sorted_wrt P (take k ys @ drop k ys)"
    using assms by simp
  then show ?thesis
    unfolding sorted_wrt_append by blast
qed

lemma js_minus_self: "\<not> js_positive (js_minus a a)"
  by (cases a) simp_all

lemma js_positive_asym:
  "js_positive (js_minus a b) \<Longrightarrow> \<not> js_positive (js_minus b a)"
  by (cases a; cases b) simp_all

lemma js_not_positive_trans:
  assumes "b \<noteq> NaN"
    and "\<not> js_positive (js_minus b a)" and "\<not> js_positive (js_minus c b)"
  shows "\<not> js_positive (js_minus c a)"
  using assms by (cases a; cases b; cases c) simp_all

lemma js_positive_Num [simp]:
  "js_positive (js_minus (Num x) (Num y)) = (y < x)"
  by simp

lemma js_ge_not_NaN: "js_ge v m \<Longrightarrow> v \<noteq> NaN"
  by (cases v) simp_all

lemma set_insert_desc [simp]: "set (insert_desc f x ys) = insert x (set ys)"
  by (induction ys) auto

lemma mset_insert_desc [simp]: "mset (insert_desc f x ys) = add_mset x (mset ys)"
  by (induction ys) simp_all

lemma length_insert_desc [simp]: "length (insert_desc f x ys) = Suc (length ys)"
  by (induction ys) simp_all

lemma set_sort_desc [simp]: "set (sort_desc f xs) = set xs"
  by (induction xs) simp_all

lemma mset_sort_desc [simp]: "mset (sort_desc f xs) = mset xs"
  by (induction xs) simp_all

lemma length_sort_desc [simp]: "length (sort_desc f xs) = length xs"
  by (induction xs) simp_all

lemma filter_insert_desc:
  "filter (\<lambda>z. f z = s) (insert_desc f x ys) =
     (if f x = s then x # filter (\<lambda>z. f z = s) ys else filter (\<lambda>z. f z = s) ys)"
proof (induction ys)
  case Nil
  show ?case by simp
next
  case (Cons y ys)
  show ?case
  proof (cases "js_positive (js_minus (f y) (f x))")
    case True
    then have "f y \<noteq> f x"
      using js_minus_self [of "f x"] by auto
    with True Cons show ?thesis by auto
  next
    case False
    then show ?thesis by simp
  qed
qed

lemma sort_desc_stable:
  "filter (\<lambda>x. f x = s) (sort_desc f xs) = filter (\<lambda>x. f x = s) xs"
  by (induction xs) (simp_all add: filter_insert_desc)

lemma sorted_insert_desc:
  assumes "\<forall>y \<in> set ys. f y \<noteq> NaN"
    and "sorted_wrt (\<lambda>a b. \<not> js_positive (js_minus (f b) (f a))) ys"
  shows "sorted_wrt (\<lambda>a b. \<not> js_positive (js_minus (f b) (f a))) (insert_desc f x ys)"
  using assms
proof (induction ys)
  case Nil
  show ?case by simp
next
  case (Cons y ys)
  show ?case
  proof (cases "js_positive (js_minus (f y) (f x))")
    case True
    have "\<not> js_positive (js_minus (f x) (f y))"
      using True by (rule js_positive_asym)
    with True Cons show ?thesis by auto
  next
    case False
    have "\<not> js_positive (js_minus (f z) (f x))" if "z \<in> set ys" for z
    proof -
      from Cons.prems that have "\<not> js_positive (js_minus (f z) (f y))" by simp
      moreover from Cons.prems have "f y \<noteq> NaN" by simp
      ultimately show ?thesis
        using False js_not_positive_trans [of "f y" "f x" "f z"] by blast
    qed
    with False Cons.prems show ?thesis by auto
  qed
qed

lemma sorted_sort_desc:
  assumes "\<forall>x \<in> set xs. f x \<noteq> NaN"
  shows "sorted_wrt (\<lambda>a b. \<not> js_positive (js_minus (f b) (f a))) (sort_desc f xs)"
  using assms by (induction xs) (simp_all add: sorted_insert_desc)

lemma sort_desc_Nil: "sort_desc f [] = []"
  by simp

subsection \<open>Lower case, splitting and inclusion\<close>

lemma of_char_toLowerChar:
  "of_char (toLowerChar c) =
     (if (65 \<le> (of_char c :: nat) \<and> (of_char c :: nat) \<le> 90)
         \<or> (192 \<le> (of_char c :: nat) \<and> (of_char c :: nat) \<le> 222 \<and> (of_char c :: nat) \<noteq> 215)
      then of_char c + 32 else (of_char c :: nat))"
  by (simp add: toLowerChar_def Let_def)

lemma is_space_toLowerChar [simp]: "is_space (toLowerChar c) = is_space c"
  by (auto simp: is_space_def Let_def of_char_toLowerChar)

lemma split_go_lower:
  "split_go b (map toLowerChar cur) (map toLowerChar s) =
     map (map toLowerChar) (split_go b cur s)"
proof (induction s arbitrary: b cur)
  case Nil
  show ?case by (simp add: rev_map)
next
  case (Cons c s)
  have nil: "split_go True [] (map toLowerChar s) = map (map toLowerChar) (split_go True [] s)"
    using Cons.IH [of True "[]"] by simp
  have snoc: "split_go False (toLowerChar c # map toLowerChar cur) (map toLowerChar s) =
      map (map toLowerChar) (split_go False (c # cur) s)"
    using Cons.IH [of False "c # cur"] by simp
  show ?case
    by (simp add: nil snoc rev_map)
qed

lemma split_ws_lower: "split_ws (toLowerCase q) = map toLowerCase (split_ws q)"
proof -
  have "split_go False (map toLowerChar []) (map toLowerChar q) =
        map (map toLowerChar) (split_go False [] q)"
    by (rule split_go_lower)
  then have "split_go False [] (map toLowerChar q) = map (map toLowerChar) (split_go False [] q)"
    by simp
  moreover have "toLowerCase = map toLowerChar"
    by (rule ext) (simp add: toLowerCase_def)
  ultimately show ?thesis
    by (simp add: split_ws_def)
qed

lemma js_includes_sublist: "js_includes t w = sublist w t"
  by (induction t) (simp_all add: sublist_Cons_right)

lemma js_includes_empty [simp]: "js_includes t []"
  by (cases t) simp_all

lemma split_go_spaces:
  "\<forall>ch \<in> set s. is_space ch \<Longrightarrow> split_go True [] s = [[]]"
  by (induction s) simp_all

lemma split_ws_spaces:
  assumes "\<forall>ch \<in> set s. is_space ch"
  shows "split_ws s = (if s = [] then [[]] else [[], []])"
proof (cases s)
  case Nil
  then show ?thesis by (simp add: split_ws_def)
next
  case (Cons c cs)
  with assms have "is_space c" and "\<forall>ch \<in> set cs. is_space ch" by simp_all
  then show ?thesis
    using Cons by (simp add: split_ws_def split_go_spaces)
qed

subsection \<open>The tokens of the specification and the pieces of the code\<close>

lemma split_each_not_Nil [simp]: "split_each s \<noteq> []"
  by (cases s) simp_all

lemma split_each_nonspace_append:
  "\<forall>ch \<in> set u. \<not> is_space ch \<Longrightarrow>
     split_each (u @ s) = (u @ hd (split_each s)) # tl (split_each s)"
  by (induction u) simp_all

lemma spec_tokens_Nil [simp]: "spec_tokens [] = []"
  by (simp add: spec_tokens_def)

lemma spec_tokens_space [simp]: "is_space c \<Longrightarrow> spec_tokens (c # s) = spec_tokens s"
  by (simp add: spec_tokens_def)

lemma spec_tokens_spaces:
  "\<forall>ch \<in> set s. is_space ch \<Longrightarrow> spec_tokens s = []"
  by (induction s) simp_all

lemma spec_tokens_word:
  assumes "\<forall>ch \<in> set u. \<not> is_space ch" and "u \<noteq> []"
  shows "spec_tokens u = [u]"
    and "is_space c \<Longrightarrow> spec_tokens (u @ c # s) = u # spec_tokens s"
proof -
  have "split_each (u @ []) = (u @ hd (split_each [])) # tl (split_each [])"
    using assms(1) by (rule split_each_nonspace_append)
  then show "spec_tokens u = [u]"
    using assms(2) by (simp add: spec_tokens_def)
  assume c: "is_space c"
  have "split_each (u @ c # s) = (u @ hd (split_each (c # s))) # tl (split_each (c # s))"
    using assms(1) by (rule split_each_nonspace_append)
  then show "spec_tokens (u @ c # s) = u # spec_tokens s"
    using assms(2) c by (simp add: spec_tokens_def)
qed

lemma split_go_tokens:
  "split_go True [] s =
     (if \<forall>ch \<in> set s. is_space ch then [[]]
      else spec_tokens s @ (if is_space (last s) then [[]] else []))"
  "\<forall>ch \<in> set cur. \<not> is_space ch \<Longrightarrow> cur \<noteq> [] \<Longrightarrow>
   split_go False cur s =
     spec_tokens (rev cur @ s) @ (if s \<noteq> [] \<and> is_space (last s) then [[]] else [])"
proof (induction s arbitrary: cur)
  case Nil
  {
    case 1
    show ?case by simp
  next
    case 2
    then show ?case
      using spec_tokens_word(1) [of "rev cur"] by simp
  }
next
  case (Cons c s)
  {
    case 1
    show ?case
    proof (cases "is_space c")
      case True
      then show ?thesis
        using Cons.IH(1) by (cases "s = []") auto
    next
      case False
      have "split_go False [c] s =
          spec_tokens (rev [c] @ s) @ (if s \<noteq> [] \<and> is_space (last s) then [[]] else [])"
        using False by (intro Cons.IH(2)) simp_all
      with False show ?thesis by auto
    qed
  next
    case 2
    show ?case
    proof (cases "is_space c")
      case True
      have u: "\<forall>ch \<in> set (rev cur). \<not> is_space ch" "rev cur \<noteq> []"
        using 2 by simp_all
      have tok: "spec_tokens (rev cur @ c # s) = rev cur # spec_tokens s"
        using spec_tokens_word(2) [OF u True] .
      show ?thesis
        using True Cons.IH(1) tok
        by (cases "s = []") (auto simp: spec_tokens_spaces)
    next
      case False
      have "split_go False (c # cur) s =
          spec_tokens (rev (c # cur) @ s) @ (if s \<noteq> [] \<and> is_space (last s) then [[]] else [])"
        using False 2 by (intro Cons.IH(2)) simp_all
      with False show ?thesis by (cases "s = []") auto
    qed
  }
qed

lemma split_ws_tokens:
  "split_ws q =
     (if q = [] \<or> is_space (hd q) then [[]] else [])
     @ spec_tokens q
     @ (if q \<noteq> [] \<and> is_space (last q) then [[]] else [])"
proof (cases q)
  case Nil
  then show ?thesis by (simp add: split_ws_def)
next
  case (Cons c cs)
  show ?thesis
  proof (cases "is_space c")
    case True
    then show ?thesis
      using Cons split_go_tokens(1) [of cs]
      by (cases "cs = []") (auto simp: split_ws_def spec_tokens_spaces)
  next
    case False
    have "split_go False [c] cs =
        spec_tokens (rev [c] @ cs) @ (if cs \<noteq> [] \<and> is_space (last cs) then [[]] else [])"
      using False by (intro split_go_tokens(2)) simp_all
    with False Cons show ?thesis
      by (cases "cs = []") (auto simp: split_ws_def)
  qed
qed

lemma set_split_ws:
  "set (split_ws q) =
     (if q = [] \<or> is_space (hd q) \<or> is_space (last q) then {[]} else {}) \<union> set (spec_tokens q)"
  by (auto simp: split_ws_tokens)

lemma textMatches_split:
  "textMatches q p =
     (\<exists>w \<in> set (split_ws q). sublist (toLowerCase w) (toLowerCase (js_or (pl p p_text) [])))"
  by (simp add: textMatches_def Let_def split_ws_lower js_includes_sublist list_ex_iff)

lemma textMatches_tokens:
  "textMatches q p =
     ((q = [] \<or> is_space (hd q) \<or> is_space (last q))
      \<or> (\<exists>w \<in> set (spec_tokens q).
            sublist (toLowerCase w) (toLowerCase (js_or (pl p p_text) []))))"
proof -
  have e: "sublist (toLowerCase []) t" for t
    by (simp add: toLowerCase_def)
  show ?thesis
    unfolding textMatches_split set_split_ws using e by auto
qed

lemma textMatches_blank:
  assumes "\<forall>ch \<in> set q. is_space ch"
  shows "textMatches q p"
proof -
  have "q = [] \<or> is_space (hd q)"
    using assms by (cases q) simp_all
  then show ?thesis
    by (auto simp: textMatches_tokens)
qed

subsection \<open>The decay step and the search of one collection\<close>

lemma ageMs_parsed:
  "pl p p_timestamp = Some ts \<Longrightarrow> ts \<noteq> [] \<Longrightarrow> parse_date e ts = Some t \<Longrightarrow> ageMs e now p = now - t"
  by (simp add: ageMs_def)


lemma pt_score_applyDecay:
  "pt_score (applyDecay cfg e now p) =
     js_plus (pt_score p)
       (js_times (DECAY_WEIGHT cfg)
          (js_exp (js_div (- ageMs e now p) (DECAY_SCALE_DAYS cfg * 86400000))))"
  by (simp add: applyDecay_def Let_def mult.commute)

lemma pt_score_applyDecay_finite:
  "DECAY_SCALE_DAYS cfg \<noteq> 0 \<Longrightarrow>
   pt_score (applyDecay cfg e now p) =
     Num (pt_score p + DECAY_WEIGHT cfg * exp (- ageMs e now p / (DECAY_SCALE_DAYS cfg * 86400000)))"
  by (simp add: pt_score_applyDecay js_div_def)


lemma applyDecay_fields [simp]:
  "pt_id (applyDecay cfg e now p) = pt_id p"
  "pt_payload (applyDecay cfg e now p) = pt_payload p"
  "pl (applyDecay cfg e now p) f = pl p f"
  by (simp_all add: applyDecay_def Let_def pl_def)

lemma toResult_score [simp]: "sr_score (toResult e c sc p) = sc"
  by (simp add: toResult_def)

lemma decayFilterSort_nat:
  "decayFilterSort minScore (real k) ps =
     take k (sort_desc pt_score (filter (\<lambda>p. js_ge (pt_score p) minScore) ps))"
  by (simp add: decayFilterSort_def js_slice0_nat)

lemma decayFilterSort_Nil [simp]: "decayFilterSort minScore limit [] = []"
  by (simp add: decayFilterSort_def)

lemma set_decayFilterSort:
  "set (decayFilterSort minScore limit ps) \<subseteq> {p \<in> set ps. js_ge (pt_score p) minScore}"
  using set_js_slice0 [of "sort_desc pt_score (filter (\<lambda>p. js_ge (pt_score p) minScore) ps)" limit]
  by (auto simp: decayFilterSort_def)

lemma decayFilterSort_all:
  assumes "length (filter (\<lambda>p. js_ge (pt_score p) minScore) ps) \<le> k"
  shows "set (decayFilterSort minScore (real k) ps) = {p \<in> set ps. js_ge (pt_score p) minScore}"
  using assms by (simp add: decayFilterSort_nat)

lemma sorted_decayFilterSort:
  "sorted_wrt (\<lambda>a b. \<not> js_positive (js_minus (pt_score b) (pt_score a)))
     (decayFilterSort minScore limit ps)"
proof -
  have "\<forall>p \<in> set (filter (\<lambda>p. js_ge (pt_score p) minScore) ps). pt_score p \<noteq> NaN"
    by (auto dest: js_ge_not_NaN)
  then have "sorted_wrt (\<lambda>a b. \<not> js_positive (js_minus (pt_score b) (pt_score a)))
      (sort_desc pt_score (filter (\<lambda>p. js_ge (pt_score p) minScore) ps))"
    by (rule sorted_sort_desc)
  then show ?thesis
    unfolding decayFilterSort_def by (rule sorted_js_slice0)
qed

lemma searchCollection_decay:
  "searchCollection cfg e True limit minScore qv c =
     ([Search c (decayParams qv limit)],
      case search e c (decayParams qv limit) of
        None \<Rightarrow> []
      | Some ps \<Rightarrow>
          map (\<lambda>p. toResult e c (pt_score p) p)
            (decayFilterSort minScore limit (map (applyDecay cfg e (date_now e c)) ps)))"
  by (simp add: searchCollection_def)

lemma searchCollection_plain:
  "searchCollection cfg e False limit minScore qv c =
     ([Search c (plainParams qv limit minScore)],
      case search e c (plainParams qv limit minScore) of
        None \<Rightarrow> []
      | Some ps \<Rightarrow> map (\<lambda>p. toResult e c (Num (pt_score p)) p) ps)"
  by (simp add: searchCollection_def)

lemma fst_searchCollection:
  "fst (searchCollection cfg e d limit minScore qv c) =
     [Search c (if d then decayParams qv limit else plainParams qv limit minScore)]"
  by (simp add: searchCollection_def)


lemma searchCollection_no_NaN:
  "\<forall>r \<in> set (snd (searchCollection cfg e d limit minScore qv c)). sr_score r \<noteq> NaN"
proof (cases d)
  case True
  have "pt_score p \<noteq> NaN" if "p \<in> set (decayFilterSort minScore limit ps)" for p ps
    using that set_decayFilterSort [of minScore limit ps] js_ge_not_NaN [of "pt_score p" minScore]
    by blast
  then show ?thesis
    by (auto simp: True searchCollection_decay split: option.splits)
next
  case False
  then show ?thesis
    by (auto simp: searchCollection_plain split: option.splits)
qed

lemma fst_textSearchCollection:
  "fst (textSearchCollection e q c) = [Scroll c scrollParams]"
  by (simp add: textSearchCollection_def)

lemma snd_textSearchCollection:
  "snd (textSearchCollection e q c) =
     (case scroll e c scrollParams of
        None \<Rightarrow> []
      | Some points \<Rightarrow> map (toResult e c (Num 0.5)) (filter (textMatches q) points))"
  by (simp add: textSearchCollection_def)

lemma textSearchCollection_no_NaN:
  "\<forall>r \<in> set (snd (textSearchCollection e q c)). sr_score r \<noteq> NaN"
  by (auto simp: snd_textSearchCollection split: option.splits)

lemma toResult_applyDecay [simp]:
  "toResult e c sc (applyDecay cfg e' now p) = toResult e c sc p"
  by (simp add: toResult_def excerptOf_def)

subsection \<open>The aggregation\<close>

lemma aggregate_nat:
  "aggregate (real k) rss = take k (sort_desc sr_score (concat rss))"
  by (simp add: aggregate_def js_slice0_nat)

lemma sorted_aggregate:
  "\<forall>r \<in> set (concat rss). sr_score r \<noteq> NaN \<Longrightarrow>
   sorted_wrt (\<lambda>a b. \<not> js_positive (js_minus (sr_score b) (sr_score a))) (aggregate limit rss)"
  unfolding aggregate_def by (intro sorted_js_slice0 sorted_sort_desc)

lemma aggregate_ties:
  "prefix (filter (\<lambda>r. sr_score r = s) (aggregate limit rss))
          (filter (\<lambda>r. sr_score r = s) (concat rss))"
proof -
  have "prefix (aggregate limit rss) (sort_desc sr_score (concat rss))"
    by (simp add: aggregate_def js_slice0_prefix)
  then have "prefix (filter (\<lambda>r. sr_score r = s) (aggregate limit rss))
          (filter (\<lambda>r. sr_score r = s) (sort_desc sr_score (concat rss)))"
    by (rule filter_mono_prefix)
  then show ?thesis by (simp add: sort_desc_stable)
qed

subsection \<open>The handler, path by path\<close>

lemma handle_None [simp]:
  "handleReflectOnPast cfg e s0 None = (s0, [], Inl TypeError)"
  by (simp add: handleReflectOnPast_def)

lemma handle_server:
  "fst (handleReflectOnPast cfg e s0 (Some a)) =
     (case embeddingService s0 of None \<Rightarrow> initialize e s0 | Some _ \<Rightarrow> s0)"
  by (simp add: handleReflectOnPast_def Let_def finish_def split: option.split prod.split)




lemma handle_degraded:
  assumes "embeddingService (fst (handleReflectOnPast cfg e s0 (Some a))) = None"
  shows "snd (snd (handleReflectOnPast cfg e s0 (Some a))) =
     Inr (snd (finish (js_slice0
       (concat (map (\<lambda>c. snd (textSearchCollection e (a_query a) c)) (getVoyageCollections e)))
       (limitOf a))))"
  using assms
  by (auto simp: handleReflectOnPast_def Let_def comp_def split: option.splits prod.splits)

lemma handle_ignores_isolation:
  "handleReflectOnPast
     (cfg\<lparr>ISOLATION_MODE := m, ALLOW_CROSS_PROJECT := x, currentProject := cp\<rparr>) e s
     (Some (a\<lparr>a_project := pr, a_crossProject := cr\<rparr>)) =
   handleReflectOnPast cfg e s (Some a)"
proof -
  have ad: "applyDecay (cfg\<lparr>ISOLATION_MODE := m, ALLOW_CROSS_PROJECT := x, currentProject := cp\<rparr>) =
      applyDecay cfg"
    by (rule ext)+ (simp add: applyDecay_def)
  have sc: "searchCollection (cfg\<lparr>ISOLATION_MODE := m, ALLOW_CROSS_PROJECT := x, currentProject := cp\<rparr>) =
      searchCollection cfg"
    by (rule ext)+ (simp add: searchCollection_def ad cong: option.case_cong)
  have args: "limitOf (a\<lparr>a_project := pr, a_crossProject := cr\<rparr>) = limitOf a"
    "minScoreOf (a\<lparr>a_project := pr, a_crossProject := cr\<rparr>) = minScoreOf a"
    "shouldUseDecay (cfg\<lparr>ISOLATION_MODE := m, ALLOW_CROSS_PROJECT := x, currentProject := cp\<rparr>)
       (a\<lparr>a_project := pr, a_crossProject := cr\<rparr>) = shouldUseDecay cfg a"
    by (simp_all add: limitOf_def minScoreOf_def shouldUseDecay_def split: option.split)
  show ?thesis
    by (simp add: handleReflectOnPast_def Let_def sc args
        cong: option.case_cong prod.case_cong if_cong)
qed


subsection \<open>Failing queries answered by the empty list\<close>

lemma failuresAsEmpty_fields [simp]:  "parse_date (failuresAsEmpty e) = parse_date e"
  "date_now (failuresAsEmpty e) = date_now e"
  "now_iso (failuresAsEmpty e) = now_iso e"
  "getCollections (failuresAsEmpty e) = getCollections e"
  "createEmbeddingService (failuresAsEmpty e) = createEmbeddingService e"
  "search (failuresAsEmpty e) c sp = Some (case search e c sp of None \<Rightarrow> [] | Some ps \<Rightarrow> ps)"
  "scroll (failuresAsEmpty e) c sc = Some (case scroll e c sc of None \<Rightarrow> [] | Some ps \<Rightarrow> ps)"
  by (simp_all add: failuresAsEmpty_def)

lemma getVoyageCollections_failuresAsEmpty [simp]:
  "getVoyageCollections (failuresAsEmpty e) = getVoyageCollections e"
  by (simp add: getVoyageCollections_def)

lemma initialize_failuresAsEmpty [simp]:
  "initialize (failuresAsEmpty e) s = initialize e s"
  by (simp add: initialize_def)

lemma toResult_failuresAsEmpty [simp]:
  "toResult (failuresAsEmpty e) = toResult e"
  by (rule ext)+ (simp add: toResult_def)

lemma applyDecay_failuresAsEmpty [simp]:
  "applyDecay cfg (failuresAsEmpty e) = applyDecay cfg e"
  by (rule ext)+ (simp add: applyDecay_def ageMs_def cong: option.case_cong if_cong)

lemma searchCollection_failuresAsEmpty [simp]:
  "searchCollection cfg (failuresAsEmpty e) d limit minScore qv =
   searchCollection cfg e d limit minScore qv"
proof
  fix c
  show "searchCollection cfg (failuresAsEmpty e) d limit minScore qv c =
        searchCollection cfg e d limit minScore qv c"
    by (simp add: searchCollection_def split: option.split)
qed

lemma textSearchCollection_failuresAsEmpty [simp]:
  "textSearchCollection (failuresAsEmpty e) q = textSearchCollection e q"
proof
  fix c
  show "textSearchCollection (failuresAsEmpty e) q c = textSearchCollection e q c"
    by (simp add: textSearchCollection_def split: option.split)
qed


subsection \<open>The store of the concrete instances, evaluated\<close>

lemmas ex_defs =
  ex_env_def ex_search_def ex_store_def ex_scroll_def ex_parse_date_def ex_cfg_def
  ex_a1_def ex_a2_def ex_b1_def ex_old_def ex_point_def ex_payload_def ex_embed_def

lemma ex_voyage:
  "getVoyageCollections ex_env = [''conv_projA_voyage'', ''conv_projB_voyage'', ''conv_down_voyage'']"
  by (simp add: getVoyageCollections_def ex_env_def endsWith_def suffix_def)

lemma ex_search_A:
  "search ex_env ''conv_projA_voyage'' (decayParams [1, 0] 1) = Some [ex_a1, ex_a2]"
  by (simp add: ex_env_def ex_search_def ex_store_def decayParams_def)

lemma ex_adj_a1:
  "applyDecay ex_cfg ex_env (date_now ex_env c) ex_a1 =
     \<lparr> pt_id = ''a1'', pt_score = Num 0.95, pt_payload = pt_payload ex_a1 \<rparr>"
  by (simp add: applyDecay_def ageMs_def pl_def js_div_def ex_defs)

lemma ex_adj_a2:
  "applyDecay ex_cfg ex_env (date_now ex_env c) ex_a2 =
     \<lparr> pt_id = ''a2'', pt_score = Num 0.8, pt_payload = pt_payload ex_a2 \<rparr>"
  by (simp add: applyDecay_def ageMs_def pl_def js_div_def ex_defs)

lemma ex_adj_b1:
  "applyDecay ex_cfg ex_env (date_now ex_env c) ex_b1 =
     \<lparr> pt_id = ''b1'', pt_score = Num 1.2, pt_payload = pt_payload ex_b1 \<rparr>"
  by (simp add: applyDecay_def ageMs_def pl_def js_div_def ex_defs)

lemma ex_adj_scores:
  "pt_score (applyDecay ex_cfg ex_env (date_now ex_env c) ex_a1) = Num 0.95"
  "pt_score (applyDecay ex_cfg ex_env (date_now ex_env c) ex_a2) = Num 0.8"
  "pt_score (applyDecay ex_cfg ex_env (date_now ex_env c) ex_b1) = Num 1.2"
  by (simp_all add: ex_adj_a1 ex_adj_a2 ex_adj_b1)

lemma ex_decay_A_1:
  "snd (searchCollection ex_cfg ex_env True 1 0.7 [1, 0] ''conv_projA_voyage'') =
     [toResult ex_env ''conv_projA_voyage'' (Num 0.95) ex_a1]"
proof -
  have "decayFilterSort 0.7 1
      (map (applyDecay ex_cfg ex_env (date_now ex_env ''conv_projA_voyage'')) [ex_a1, ex_a2]) =
      [applyDecay ex_cfg ex_env (date_now ex_env ''conv_projA_voyage'') ex_a1]"
    by (simp add: decayFilterSort_def ex_adj_scores js_slice0_def js_trunc_def)
  then show ?thesis
    by (simp add: searchCollection_decay ex_search_A ex_adj_scores)
qed

lemma ex_decay_B_1:
  "snd (searchCollection ex_cfg ex_env True 1 0.7 [1, 0] ''conv_projB_voyage'') =
     [toResult ex_env ''conv_projB_voyage'' (Num 1.2) ex_b1]"
proof -
  have s: "search ex_env ''conv_projB_voyage'' (decayParams [1, 0] 1) = Some [ex_b1]"
    by (simp add: ex_env_def ex_search_def ex_store_def decayParams_def)
  have "decayFilterSort 0.7 1
      (map (applyDecay ex_cfg ex_env (date_now ex_env ''conv_projB_voyage'')) [ex_b1]) =
      [applyDecay ex_cfg ex_env (date_now ex_env ''conv_projB_voyage'') ex_b1]"
    by (simp add: decayFilterSort_def ex_adj_scores js_slice0_def js_trunc_def)
  then show ?thesis
    by (simp add: searchCollection_decay s ex_adj_scores)
qed

lemma ex_decay_down:
  "snd (searchCollection ex_cfg ex_env d limit minScore qv ''conv_down_voyage'') = []"
  by (simp add: searchCollection_def ex_env_def ex_search_def ex_store_def)

lemma ex_handle:
  "handleReflectOnPast cfg ex_env ex_server (Some a) =
     (\<lparr>embeddingService = Some ex_embed\<rparr>,
      [CreateEmbeddingService, GenerateEmbedding (a_query a), GetCollections]
        @ map (\<lambda>c. Search c (if shouldUseDecay cfg a then decayParams [1, 0] (limitOf a)
                               else plainParams [1, 0] (limitOf a) (minScoreOf a)))
            [''conv_projA_voyage'', ''conv_projB_voyage'', ''conv_down_voyage'']
        @ fst (finish (aggregate (limitOf a)
            (map (\<lambda>c. snd (searchCollection cfg ex_env (shouldUseDecay cfg a) (limitOf a)
                             (minScoreOf a) [1, 0] c))
               [''conv_projA_voyage'', ''conv_projB_voyage'', ''conv_down_voyage'']))),
      Inr (snd (finish (aggregate (limitOf a)
            (map (\<lambda>c. snd (searchCollection cfg ex_env (shouldUseDecay cfg a) (limitOf a)
                             (minScoreOf a) [1, 0] c))
               [''conv_projA_voyage'', ''conv_projB_voyage'', ''conv_down_voyage''])))))"
proof -
  have init: "initialize ex_env \<lparr>embeddingService = None\<rparr> = \<lparr>embeddingService = Some ex_embed\<rparr>"
    by (simp add: initialize_def ex_env_def)
  show ?thesis
    by (simp add: handleReflectOnPast_def Let_def ex_server_def init ex_voyage
        fst_searchCollection ex_embed_def split: prod.split)
qed

lemma ex_handle_degraded:
  "handleReflectOnPast cfg ex_env_degraded ex_server (Some a) =
     (\<lparr>embeddingService = None\<rparr>,
      [CreateEmbeddingService, GetCollections]
        @ map (\<lambda>c. Scroll c scrollParams)
            [''conv_projA_voyage'', ''conv_projB_voyage'', ''conv_down_voyage'']
        @ fst (finish (js_slice0
            (concat (map (\<lambda>c. snd (textSearchCollection ex_env_degraded (a_query a) c))
               [''conv_projA_voyage'', ''conv_projB_voyage'', ''conv_down_voyage'']))
            (limitOf a))),
      Inr (snd (finish (js_slice0
            (concat (map (\<lambda>c. snd (textSearchCollection ex_env_degraded (a_query a) c))
               [''conv_projA_voyage'', ''conv_projB_voyage'', ''conv_down_voyage'']))
            (limitOf a)))))"
proof -
  have init: "initialize ex_env_degraded \<lparr>embeddingService = None\<rparr> = \<lparr>embeddingService = None\<rparr>"
    by (simp add: initialize_def ex_env_degraded_def)
  have voy: "getVoyageCollections ex_env_degraded =
      [''conv_projA_voyage'', ''conv_projB_voyage'', ''conv_down_voyage'']"
    using ex_voyage by (simp add: getVoyageCollections_def ex_env_degraded_def)
  show ?thesis
    by (simp add: handleReflectOnPast_def Let_def ex_server_def init voy fst_textSearchCollection
        split: prod.split)
qed

lemma ex_args_fields [simp]:
  "a_query (ex_args q l m d) = q"
  "limitOf (ex_args q l m d) = (case l of None \<Rightarrow> 5 | Some x \<Rightarrow> x)"
  "minScoreOf (ex_args q l m d) = (case m of None \<Rightarrow> 0.7 | Some x \<Rightarrow> x)"
  "shouldUseDecay cfg (ex_args q l m d) = (case d of None \<Rightarrow> ENABLE_MEMORY_DECAY cfg | Some x \<Rightarrow> x)"
  "a_crossProject (ex_args q l m d) = Some False"
  "a_project (ex_args q l m d) = None"
  by (simp_all add: ex_args_def limitOf_def minScoreOf_def shouldUseDecay_def)

lemma ex_handle_decay_1:
  "handleReflectOnPast ex_cfg ex_env ex_server
     (Some (ex_args ''indexing'' (Some 1) (Some 0.7) (Some True))) =
     (\<lparr>embeddingService = Some ex_embed\<rparr>,
      [CreateEmbeddingService, GenerateEmbedding ''indexing'', GetCollections,
       Search ''conv_projA_voyage'' (decayParams [1, 0] 1),
       Search ''conv_projB_voyage'' (decayParams [1, 0] 1),
       Search ''conv_down_voyage'' (decayParams [1, 0] 1)],
      Inr (Found [toResult ex_env ''conv_projB_voyage'' (Num 1.2) ex_b1]))"
proof -
  have agg: "aggregate 1
      [snd (searchCollection ex_cfg ex_env True 1 0.7 [1, 0] ''conv_projA_voyage''),
       snd (searchCollection ex_cfg ex_env True 1 0.7 [1, 0] ''conv_projB_voyage''),
       snd (searchCollection ex_cfg ex_env True 1 0.7 [1, 0] ''conv_down_voyage'')] =
     [toResult ex_env ''conv_projB_voyage'' (Num 1.2) ex_b1]"
    by (simp add: ex_decay_A_1 ex_decay_B_1 ex_decay_down aggregate_def
        js_slice0_def js_trunc_def)
  show ?thesis
    by (simp add: ex_handle ex_args_fields agg finish_def)
qed

lemma ex_search_eval [simp]: "search ex_env c sp = ex_search c sp"
  by (simp add: ex_env_def)

lemma ex_scroll_eval [simp]: "scroll ex_env_degraded c sc = ex_scroll c sc"
  by (simp add: ex_env_degraded_def ex_env_def)

lemma ex_scores [simp]:
  "pt_score ex_a1 = 0.65" "pt_score ex_a2 = 0.5" "pt_score ex_b1 = 0.9"
  by (simp_all add: ex_a1_def ex_a2_def ex_b1_def ex_point_def)




lemma ex_plain_default:
  "aggregate 5
     [snd (searchCollection ex_cfg ex_env False 5 0.7 [1, 0] ''conv_projA_voyage''),
      snd (searchCollection ex_cfg ex_env False 5 0.7 [1, 0] ''conv_projB_voyage''),
      snd (searchCollection ex_cfg ex_env False 5 0.7 [1, 0] ''conv_down_voyage'')] =
   [toResult ex_env ''conv_projB_voyage'' (Num 0.9) ex_b1]"
  by (simp add: searchCollection_def plainParams_def ex_search_def ex_store_def aggregate_def
      js_slice0_def js_trunc_def)




lemma ex_matches_two:
  "textMatches ''zzz  Indexing'' ex_a1" "\<not> textMatches ''zzz  Indexing'' ex_a2"
  "textMatches ''zzz  Indexing'' ex_b1"
  by code_simp+

lemma ex_matches_trailing:
  "textMatches ''zzz '' ex_a1" "textMatches ''zzz '' ex_a2"
  by code_simp+

lemma ex_tokens:
  "spec_tokens ''zzz  Indexing'' = [''zzz'', ''Indexing'']"
  "split_ws ''zzz  Indexing'' = [''zzz'', ''Indexing'']"
  "spec_tokens ''zzz '' = [''zzz'']"
  "split_ws ''zzz '' = [''zzz'', []]"
  by code_simp+








section \<open>Properties\<close>

subsection \<open>The decay mode of the search of one collection\<close>

text \<open>
  Claim C1, as amended. In decay mode the search of a collection asks the store for
  \<open>\<lceil>limit * 3\<rceil>\<close> candidates with no score threshold, adjusts every candidate, keeps those
  of adjusted score at least \<open>minScore\<close>, sorts them in descending order of adjusted score
  and keeps the first \<open>limit\<close> of that list. So every result has an adjusted score of at
  least \<open>minScore\<close>, a candidate of adjusted score below \<open>minScore\<close> is excluded whatever its
  raw score, and a candidate of adjusted score at least \<open>minScore\<close> is a result, whatever
  its raw score, when it is among the first \<open>limit\<close> of the sorted list: in particular when
  no more than \<open>limit\<close> candidates pass the filter. The comparison \<open>js_ge v m\<close> is the
  \<open>v >= m\<close> of the code, and the list is in descending order when the comparator of the
  sort asks for no later element before an earlier one.
\<close>

theorem decay_mode_pipeline:
  "fst (searchCollection cfg e True limit minScore qv c) =
     [Search c \<lparr> sp_vector = qv, sp_limit = \<lceil>limit * 3\<rceil>, sp_score_threshold = None,
                 sp_with_payload = True \<rparr>]
   \<and> (\<forall>ps. search e c (decayParams qv limit) = Some ps \<longrightarrow>
         snd (searchCollection cfg e True limit minScore qv c) =
           map (\<lambda>p. toResult e c (pt_score p) p)
             (js_slice0
               (sort_desc pt_score
                 (filter (\<lambda>p. js_ge (pt_score p) minScore)
                   (map (applyDecay cfg e (date_now e c)) ps)))
               limit)
       \<and> sorted_wrt (\<lambda>a b. \<not> js_positive (js_minus (sr_score b) (sr_score a)))
           (snd (searchCollection cfg e True limit minScore qv c))
       \<and> (\<forall>r \<in> set (snd (searchCollection cfg e True limit minScore qv c)).
             js_ge (sr_score r) minScore)
       \<and> (\<forall>p \<in> set ps. \<not> js_ge (pt_score (applyDecay cfg e (date_now e c) p)) minScore \<longrightarrow>
             toResult e c (pt_score (applyDecay cfg e (date_now e c) p)) p
             \<notin> set (snd (searchCollection cfg e True limit minScore qv c)))
       \<and> (\<forall>k. limit = real k \<longrightarrow>
             snd (searchCollection cfg e True limit minScore qv c) =
               map (\<lambda>p. toResult e c (pt_score p) p)
                 (take k
                   (sort_desc pt_score
                     (filter (\<lambda>p. js_ge (pt_score p) minScore)
                       (map (applyDecay cfg e (date_now e c)) ps)))))
       \<and> (\<forall>k. limit = real k
               \<and> length (filter (\<lambda>p. js_ge (pt_score p) minScore)
                           (map (applyDecay cfg e (date_now e c)) ps)) \<le> k \<longrightarrow>
             (\<forall>p \<in> set ps. js_ge (pt_score (applyDecay cfg e (date_now e c) p)) minScore \<longrightarrow>
                toResult e c (pt_score (applyDecay cfg e (date_now e c) p)) p
                \<in> set (snd (searchCollection cfg e True limit minScore qv c)))))"
proof -
  let ?adj = "applyDecay cfg e (date_now e c)"
  let ?res = "snd (searchCollection cfg e True limit minScore qv c)"
  let ?render = "\<lambda>p. toResult e c (pt_score p) p"
  let ?pass = "\<lambda>ps. filter (\<lambda>p. js_ge (pt_score p) minScore) (map ?adj ps)"
  have call: "fst (searchCollection cfg e True limit minScore qv c) =
     [Search c \<lparr> sp_vector = qv, sp_limit = \<lceil>limit * 3\<rceil>, sp_score_threshold = None,
                 sp_with_payload = True \<rparr>]"
    by (simp add: searchCollection_decay decayParams_def)
  have rest: "?res = map ?render (js_slice0 (sort_desc pt_score (?pass ps)) limit)
       \<and> sorted_wrt (\<lambda>a b. \<not> js_positive (js_minus (sr_score b) (sr_score a))) ?res
       \<and> (\<forall>r \<in> set ?res. js_ge (sr_score r) minScore)
       \<and> (\<forall>p \<in> set ps. \<not> js_ge (pt_score (?adj p)) minScore \<longrightarrow>
             toResult e c (pt_score (?adj p)) p \<notin> set ?res)
       \<and> (\<forall>k. limit = real k \<longrightarrow>
             ?res = map ?render (take k (sort_desc pt_score (?pass ps))))
       \<and> (\<forall>k. limit = real k \<and> length (?pass ps) \<le> k \<longrightarrow>
             (\<forall>p \<in> set ps. js_ge (pt_score (?adj p)) minScore \<longrightarrow>
                toResult e c (pt_score (?adj p)) p \<in> set ?res))"
    if some: "search e c (decayParams qv limit) = Some ps" for ps
  proof -
    have res: "?res = map ?render (decayFilterSort minScore limit (map ?adj ps))"
      by (simp add: searchCollection_decay some)
    have r1: "?res = map ?render (js_slice0 (sort_desc pt_score (?pass ps)) limit)"
      by (simp add: res decayFilterSort_def)
    have r2: "sorted_wrt (\<lambda>a b. \<not> js_positive (js_minus (sr_score b) (sr_score a))) ?res"
      using sorted_decayFilterSort [of minScore limit "map ?adj ps"]
      by (simp add: res sorted_wrt_map)
    have r3: "\<forall>r \<in> set ?res. js_ge (sr_score r) minScore"
      using set_decayFilterSort [of minScore limit "map ?adj ps"]
      by (auto simp: res)
    have r4: "\<forall>p \<in> set ps. \<not> js_ge (pt_score (?adj p)) minScore \<longrightarrow>
             toResult e c (pt_score (?adj p)) p \<notin> set ?res"
    proof (intro ballI impI notI)
      fix p
      assume low: "\<not> js_ge (pt_score (?adj p)) minScore"
        and "toResult e c (pt_score (?adj p)) p \<in> set ?res"
      with r3 have "js_ge (sr_score (toResult e c (pt_score (?adj p)) p)) minScore" by blast
      with low show False by simp
    qed
    have r5: "\<forall>k. limit = real k \<longrightarrow>
             ?res = map ?render (take k (sort_desc pt_score (?pass ps)))"
    proof (intro allI impI)
      fix k assume k: "limit = real k"
      have "decayFilterSort minScore limit (map ?adj ps) =
          take k (sort_desc pt_score (?pass ps))"
        unfolding k by (rule decayFilterSort_nat)
      with res show "?res = map ?render (take k (sort_desc pt_score (?pass ps)))"
        by simp
    qed
    have r6: "\<forall>k. limit = real k \<and> length (?pass ps) \<le> k \<longrightarrow>
             (\<forall>p \<in> set ps. js_ge (pt_score (?adj p)) minScore \<longrightarrow>
                toResult e c (pt_score (?adj p)) p \<in> set ?res)"
    proof (intro allI impI ballI)
      fix k p
      assume k: "limit = real k \<and> length (?pass ps) \<le> k"
        and p: "p \<in> set ps" and ge: "js_ge (pt_score (?adj p)) minScore"
      from k have "set (decayFilterSort minScore limit (map ?adj ps)) =
          {q \<in> set (map ?adj ps). js_ge (pt_score q) minScore}"
        using decayFilterSort_all [of minScore "map ?adj ps" k] by simp
      with p ge have "?adj p \<in> set (decayFilterSort minScore limit (map ?adj ps))"
        by simp
      then have "?render (?adj p) \<in> set ?res"
        unfolding res by (simp only: set_map) (rule imageI)
      then show "toResult e c (pt_score (?adj p)) p \<in> set ?res"
        by simp
    qed
    from r1 r2 r3 r4 r5 r6 show ?thesis by blast
  qed
  from call rest show ?thesis by blast
qed

text \<open>
  With limit 5 and \<open>minScore = 0.7\<close> the store is asked for 15 candidates of collection
  \<open>conv_projA_voyage\<close>, and the point \<open>a2\<close>, of raw score 0.5 and adjusted score 0.8, is
  a result.
\<close>

theorem decay_mode_pipeline_witness:
  "search ex_env ''conv_projA_voyage'' (decayParams [1, 0] 5) = Some [ex_a1, ex_a2]
   \<and> fst (searchCollection ex_cfg ex_env True 5 0.7 [1, 0] ''conv_projA_voyage'') =
       [Search ''conv_projA_voyage''
          \<lparr> sp_vector = [1, 0], sp_limit = 15, sp_score_threshold = None, sp_with_payload = True \<rparr>]
   \<and> pt_score ex_a2 < 0.7
   \<and> pt_score (applyDecay ex_cfg ex_env (date_now ex_env ''conv_projA_voyage'') ex_a2) = Num 0.8
   \<and> toResult ex_env ''conv_projA_voyage'' (Num 0.8) ex_a2
       \<in> set (snd (searchCollection ex_cfg ex_env True 5 0.7 [1, 0] ''conv_projA_voyage''))"
proof -
  let ?c = "''conv_projA_voyage''"
  let ?adj = "applyDecay ex_cfg ex_env (date_now ex_env ?c)"
  have s: "search ex_env ?c (decayParams [1, 0] 5) = Some [ex_a1, ex_a2]"
    by (simp add: ex_env_def ex_search_def ex_store_def decayParams_def)
  have five: "(5::real) = real 5" by simp
  have len: "length (filter (\<lambda>p. js_ge (pt_score p) 0.7) (map ?adj [ex_a1, ex_a2])) \<le> 5"
    by simp
  have a2: "ex_a2 \<in> set [ex_a1, ex_a2]" by simp
  have adj: "pt_score (?adj ex_a2) = Num 0.8"
    by (simp add: ex_adj_scores)
  have pass: "js_ge (pt_score (?adj ex_a2)) 0.7"
    by (simp add: adj)
  from decay_mode_pipeline [of ex_cfg ex_env 5 "0.7" "[1, 0]" ?c] s
  have "\<forall>k. (5::real) = real k
               \<and> length (filter (\<lambda>p. js_ge (pt_score p) 0.7) (map ?adj [ex_a1, ex_a2])) \<le> k \<longrightarrow>
             (\<forall>p \<in> set [ex_a1, ex_a2]. js_ge (pt_score (?adj p)) 0.7 \<longrightarrow>
                toResult ex_env ?c (pt_score (?adj p)) p
                \<in> set (snd (searchCollection ex_cfg ex_env True 5 0.7 [1, 0] ?c)))"
    by blast
  with five len have "\<forall>p \<in> set [ex_a1, ex_a2]. js_ge (pt_score (?adj p)) 0.7 \<longrightarrow>
                toResult ex_env ?c (pt_score (?adj p)) p
                \<in> set (snd (searchCollection ex_cfg ex_env True 5 0.7 [1, 0] ?c))"
    by blast
  with a2 pass have "toResult ex_env ?c (pt_score (?adj ex_a2)) ex_a2
        \<in> set (snd (searchCollection ex_cfg ex_env True 5 0.7 [1, 0] ?c))"
    by blast
  then have mem: "toResult ex_env ?c (Num 0.8) ex_a2
        \<in> set (snd (searchCollection ex_cfg ex_env True 5 0.7 [1, 0] ?c))"
    by (simp only: adj)
  have call: "fst (searchCollection ex_cfg ex_env True 5 0.7 [1, 0] ?c) =
       [Search ?c \<lparr> sp_vector = [1, 0], sp_limit = 15, sp_score_threshold = None,
                    sp_with_payload = True \<rparr>]"
    using decay_mode_pipeline [of ex_cfg ex_env 5 "0.7" "[1, 0]" ?c] by simp
  have raw: "pt_score ex_a2 < 0.7"
    by (simp add: ex_a2_def ex_point_def)
  from s call raw adj mem show ?thesis by blast
qed

text \<open>
  Claim C1 as stated says that a candidate of raw score below \<open>minScore\<close> and adjusted
  score at least \<open>minScore\<close> appears in the results. With limit 1 the point \<open>a2\<close> (raw 0.5,
  adjusted 0.8, \<open>minScore = 0.7\<close>) is cut from the results of its collection by the point
  \<open>a1\<close> (adjusted 0.95), and the response of the handler holds the point \<open>b1\<close> alone.
\<close>

theorem decay_truncation_counterexample:
  "search ex_env ''conv_projA_voyage'' (decayParams [1, 0] 1) = Some [ex_a1, ex_a2]
   \<and> pt_score ex_a2 < 0.7
   \<and> pt_score (applyDecay ex_cfg ex_env (date_now ex_env ''conv_projA_voyage'') ex_a2) = Num 0.8
   \<and> js_ge (pt_score (applyDecay ex_cfg ex_env (date_now ex_env ''conv_projA_voyage'') ex_a2)) 0.7
   \<and> toResult ex_env ''conv_projA_voyage'' (Num 0.8) ex_a2
       \<notin> set (snd (searchCollection ex_cfg ex_env True 1 0.7 [1, 0] ''conv_projA_voyage''))
   \<and> snd (snd (handleReflectOnPast ex_cfg ex_env ex_server
                 (Some (ex_args ''indexing'' (Some 1) (Some 0.7) (Some True))))) =
       Inr (Found [toResult ex_env ''conv_projB_voyage'' (Num 1.2) ex_b1])"
proof -
  have raw: "pt_score ex_a2 < 0.7"
    by (simp add: ex_a2_def ex_point_def)
  have adj: "pt_score (applyDecay ex_cfg ex_env (date_now ex_env ''conv_projA_voyage'') ex_a2) = Num 0.8"
    by (simp add: ex_adj_scores)
  have out: "toResult ex_env ''conv_projA_voyage'' (Num 0.8) ex_a2
       \<notin> set (snd (searchCollection ex_cfg ex_env True 1 0.7 [1, 0] ''conv_projA_voyage''))"
    by (simp add: ex_decay_A_1 toResult_def)
  from ex_search_A raw adj out ex_handle_decay_1 show ?thesis by simp
qed

subsection \<open>The decay-adjusted score\<close>

text \<open>
  Claim C2. With a weight \<open>w \<ge> 0\<close> and a scale of \<open>d > 0\<close> days, a candidate of raw
  similarity \<open>s\<close> whose timestamp parses to the instant \<open>t\<close> gets, at time \<open>now\<close>, the
  adjusted score \<open>s + w * exp (- (now - t) / (d * 86400000))\<close>, a finite number; at age 0
  that is \<open>s + w\<close>, and it is never below \<open>s\<close>. Finite numbers are real numbers here,
  without the rounding of floating point.
\<close>

theorem decay_adjusted_score:
  assumes "0 \<le> DECAY_WEIGHT cfg" and "0 < DECAY_SCALE_DAYS cfg"
    and "pl p p_timestamp = Some ts" and "ts \<noteq> []" and "parse_date e ts = Some t"
  shows "pt_score (applyDecay cfg e now p) =
           Num (pt_score p
                + DECAY_WEIGHT cfg * exp (- (now - t) / (DECAY_SCALE_DAYS cfg * 86400000)))
         \<and> (now - t = 0 \<longrightarrow> pt_score (applyDecay cfg e now p) = Num (pt_score p + DECAY_WEIGHT cfg))
         \<and> js_ge (pt_score (applyDecay cfg e now p)) (pt_score p)"
proof -
  have age: "ageMs e now p = now - t"
    using assms(3-5) by (rule ageMs_parsed)
  have scale: "DECAY_SCALE_DAYS cfg \<noteq> 0"
    using assms(2) by simp
  have eq: "pt_score (applyDecay cfg e now p) =
           Num (pt_score p
                + DECAY_WEIGHT cfg * exp (- (now - t) / (DECAY_SCALE_DAYS cfg * 86400000)))"
    using pt_score_applyDecay_finite [OF scale, of e now p] by (simp add: age)
  have zero: "pt_score (applyDecay cfg e now p) = Num (pt_score p + DECAY_WEIGHT cfg)"
    if "now - t = 0"
  proof -
    from that age have "ageMs e now p = 0" by simp
    then show ?thesis
      using pt_score_applyDecay_finite [OF scale, of e now p] by simp
  qed
  have "0 \<le> DECAY_WEIGHT cfg * exp (- (now - t) / (DECAY_SCALE_DAYS cfg * 86400000))"
    using assms(1) by simp
  then have ge: "js_ge (pt_score (applyDecay cfg e now p)) (pt_score p)"
    unfolding eq by simp
  from eq zero ge show ?thesis by blast
qed

text \<open>
  The point of raw score 0.6 stamped 1 January 2024, with weight 0.3 and scale 90 days:
  90 days later its score is \<open>0.6 + 0.3 * exp (- 1)\<close>, at the instant of its timestamp 0.9.
\<close>

theorem decay_adjusted_score_witness:
  "0 \<le> DECAY_WEIGHT ex_cfg \<and> 0 < DECAY_SCALE_DAYS ex_cfg
   \<and> pl ex_old p_timestamp = Some ''2024-01-01T00:00:00.000Z''
   \<and> parse_date ex_env ''2024-01-01T00:00:00.000Z'' = Some 1704067200000
   \<and> pt_score (applyDecay ex_cfg ex_env 1711843200000 ex_old) = Num (0.6 + 0.3 * exp (- 1))
   \<and> pt_score (applyDecay ex_cfg ex_env 1704067200000 ex_old) = Num 0.9
   \<and> js_ge (pt_score (applyDecay ex_cfg ex_env 1711843200000 ex_old)) 0.6"
  using decay_adjusted_score [of ex_cfg ex_old "''2024-01-01T00:00:00.000Z''" ex_env 1704067200000 1711843200000]
    decay_adjusted_score [of ex_cfg ex_old "''2024-01-01T00:00:00.000Z''" ex_env 1704067200000 1704067200000]
  by (simp add: ex_cfg_def ex_old_def ex_point_def ex_payload_def pl_def ex_env_def ex_parse_date_def)

subsection \<open>Project isolation\<close>

text \<open>
  Claim C3 says that with isolation mode \<open>hybrid\<close> and \<open>crossProject = false\<close> every result
  belongs to a collection of the current project. The handler searches every collection
  whose name ends in \<open>_voyage\<close> and consults neither the isolation mode nor the argument:
  here the server of project \<open>projA\<close>, in mode \<open>hybrid\<close>, answers a request with
  \<open>crossProject = false\<close> by a point of collection \<open>conv_projB_voyage\<close>, of project \<open>projB\<close>.
\<close>

theorem isolation_not_applied:
  "ISOLATION_MODE ex_cfg = Hybrid
   \<and> currentProject ex_cfg = Some ''projA''
   \<and> a_crossProject (ex_args ''indexing'' None None (Some False)) = Some False
   \<and> snd (snd (handleReflectOnPast ex_cfg ex_env ex_server
                 (Some (ex_args ''indexing'' None None (Some False))))) =
       Inr (Found [toResult ex_env ''conv_projB_voyage'' (Num 0.9) ex_b1])
   \<and> sr_collectionName (toResult ex_env ''conv_projB_voyage'' (Num 0.9) ex_b1) = ''conv_projB_voyage''
   \<and> sr_projectName (toResult ex_env ''conv_projB_voyage'' (Num 0.9) ex_b1) = ''projB''"
proof -
  have cfg: "ISOLATION_MODE ex_cfg = Hybrid \<and> currentProject ex_cfg = Some ''projA''"
    by (simp add: ex_cfg_def)
  have out: "snd (snd (handleReflectOnPast ex_cfg ex_env ex_server
                 (Some (ex_args ''indexing'' None None (Some False))))) =
       Inr (Found [toResult ex_env ''conv_projB_voyage'' (Num 0.9) ex_b1])"
    by (simp add: ex_handle ex_plain_default finish_def)
  have res: "sr_collectionName (toResult ex_env ''conv_projB_voyage'' (Num 0.9) ex_b1) = ''conv_projB_voyage''
     \<and> sr_projectName (toResult ex_env ''conv_projB_voyage'' (Num 0.9) ex_b1) = ''projB''"
    by (simp add: toResult_def js_or_def pl_def ex_b1_def ex_point_def ex_payload_def
        deriveProject_def)
  from cfg out res show ?thesis by simp
qed

subsection \<open>A failing collection\<close>



subsection \<open>The aggregation of the results of the collections\<close>

text \<open>
  Claim C5. The merge of the lists of results of the collections is the concatenation of
  the lists, sorted in descending order of score by a stable sort and cut to the first
  \<open>limit = k\<close>: results of equal score keep their order of input, nothing is removed as
  a duplicate (the results returned and the results cut off are, together, exactly the
  results put in), and with at least \<open>k\<close> results put in exactly \<open>k\<close> are returned, none
  of them of lower score than a result cut off. The order is the one of the comparator
  \<open>b.score - a.score\<close>, which on two finite scores \<open>x\<close> of \<open>a\<close> and \<open>y\<close> of \<open>b\<close> leaves
  \<open>a\<close> before \<open>b\<close> exactly when \<open>y \<le> x\<close>; the two statements on the order are for lists
  without the score \<open>NaN\<close>, on which alone the comparator is an order, and the lists that
  the searches of the collections hand to the merge hold no such score.
\<close>

theorem aggregate_merge:
  "aggregate (real k) rss = take k (sort_desc sr_score (concat rss))
   \<and> (\<forall>r \<in> set (concat (map (\<lambda>c. snd (searchCollection cfg e d limit minScore qv c)) cs)).
         sr_score r \<noteq> NaN)
   \<and> ((\<forall>r \<in> set (concat rss). sr_score r \<noteq> NaN) \<longrightarrow>
        sorted_wrt (\<lambda>a b. \<not> js_positive (js_minus (sr_score b) (sr_score a)))
          (aggregate (real k) rss))
   \<and> (\<forall>s. filter (\<lambda>r. sr_score r = s) (sort_desc sr_score (concat rss)) =
            filter (\<lambda>r. sr_score r = s) (concat rss))
   \<and> (\<forall>s. prefix (filter (\<lambda>r. sr_score r = s) (aggregate (real k) rss))
                   (filter (\<lambda>r. sr_score r = s) (concat rss)))
   \<and> mset (aggregate (real k) rss) + mset (drop k (sort_desc sr_score (concat rss))) =
       mset (concat rss)
   \<and> length (aggregate (real k) rss) = min k (length (concat rss))
   \<and> (k \<le> length (concat rss) \<longrightarrow> length (aggregate (real k) rss) = k)
   \<and> ((\<forall>r \<in> set (concat rss). sr_score r \<noteq> NaN) \<longrightarrow>
        (\<forall>a \<in> set (aggregate (real k) rss).
           \<forall>b \<in> set (drop k (sort_desc sr_score (concat rss))).
             \<not> js_positive (js_minus (sr_score b) (sr_score a))))
   \<and> (\<forall>x y. sr_score a = Num x \<and> sr_score b = Num y \<longrightarrow>
        (\<not> js_positive (js_minus (sr_score b) (sr_score a))) = (y \<le> x))"
proof -
  let ?ys = "sort_desc sr_score (concat rss)"
  have agg: "aggregate (real k) rss = take k ?ys"
    by (rule aggregate_nat)
  have fin: "\<forall>r \<in> set (concat (map (\<lambda>c. snd (searchCollection cfg e d limit minScore qv c)) cs)).
         sr_score r \<noteq> NaN"
    using searchCollection_no_NaN [of cfg e d limit minScore qv] by auto
  have srt: "sorted_wrt (\<lambda>a b. \<not> js_positive (js_minus (sr_score b) (sr_score a)))
          (aggregate (real k) rss)"
    if "\<forall>r \<in> set (concat rss). sr_score r \<noteq> NaN"
    using that by (rule sorted_aggregate)
  have stable: "\<forall>s. filter (\<lambda>r. sr_score r = s) ?ys = filter (\<lambda>r. sr_score r = s) (concat rss)"
    by (simp add: sort_desc_stable)
  have ties: "\<forall>s. prefix (filter (\<lambda>r. sr_score r = s) (aggregate (real k) rss))
                   (filter (\<lambda>r. sr_score r = s) (concat rss))"
    by (simp add: aggregate_ties)
  have "mset (take k ?ys) + mset (drop k ?ys) = mset ?ys"
    by (simp add: union_code)
  then have all: "mset (aggregate (real k) rss) + mset (drop k ?ys) = mset (concat rss)"
    by (simp add: agg)
  have len: "length (aggregate (real k) rss) = min k (length (concat rss))"
    by (simp add: agg min.commute)
  have len2: "k \<le> length (concat rss) \<longrightarrow> length (aggregate (real k) rss) = k"
    by (simp add: len)
  have top: "\<forall>a \<in> set (aggregate (real k) rss). \<forall>b \<in> set (drop k ?ys).
      \<not> js_positive (js_minus (sr_score b) (sr_score a))"
    if "\<forall>r \<in> set (concat rss). sr_score r \<noteq> NaN"
    unfolding agg
    by (rule take_drop_sorted_wrt) (rule sorted_sort_desc [OF that])
  have rd: "\<forall>x y. sr_score a = Num x \<and> sr_score b = Num y \<longrightarrow>
        (\<not> js_positive (js_minus (sr_score b) (sr_score a))) = (y \<le> x)"
    by auto
  from agg fin srt stable ties all len len2 top rd show ?thesis
    by blast
qed

text \<open>
  Two collections hold a point of the same id and the same score 0.8: both are returned,
  the one of the first collection first.
\<close>

theorem aggregate_merge_witness:
  "aggregate (real 3)
     [[toResult ex_env ''conv_projA_voyage'' (Num 0.8) ex_a1,
       toResult ex_env ''conv_projA_voyage'' (Num 0.5) ex_a2],
      [toResult ex_env ''conv_projB_voyage'' (Num 0.9) ex_b1,
       toResult ex_env ''conv_projB_voyage'' (Num 0.8) ex_a1]] =
     [toResult ex_env ''conv_projB_voyage'' (Num 0.9) ex_b1,
      toResult ex_env ''conv_projA_voyage'' (Num 0.8) ex_a1,
      toResult ex_env ''conv_projB_voyage'' (Num 0.8) ex_a1]
   \<and> 3 \<le> length (concat
     [[toResult ex_env ''conv_projA_voyage'' (Num 0.8) ex_a1,
       toResult ex_env ''conv_projA_voyage'' (Num 0.5) ex_a2],
      [toResult ex_env ''conv_projB_voyage'' (Num 0.9) ex_b1,
       toResult ex_env ''conv_projB_voyage'' (Num 0.8) ex_a1]])
   \<and> length (aggregate (real 3)
     [[toResult ex_env ''conv_projA_voyage'' (Num 0.8) ex_a1,
       toResult ex_env ''conv_projA_voyage'' (Num 0.5) ex_a2],
      [toResult ex_env ''conv_projB_voyage'' (Num 0.9) ex_b1,
       toResult ex_env ''conv_projB_voyage'' (Num 0.8) ex_a1]]) = 3
   \<and> sorted_wrt (\<lambda>a b. \<not> js_positive (js_minus (sr_score b) (sr_score a)))
       (aggregate (real 3)
     [[toResult ex_env ''conv_projA_voyage'' (Num 0.8) ex_a1,
       toResult ex_env ''conv_projA_voyage'' (Num 0.5) ex_a2],
      [toResult ex_env ''conv_projB_voyage'' (Num 0.9) ex_b1,
       toResult ex_env ''conv_projB_voyage'' (Num 0.8) ex_a1]])"
proof -
  let ?rss = "[[toResult ex_env ''conv_projA_voyage'' (Num 0.8) ex_a1,
       toResult ex_env ''conv_projA_voyage'' (Num 0.5) ex_a2],
      [toResult ex_env ''conv_projB_voyage'' (Num 0.9) ex_b1,
       toResult ex_env ''conv_projB_voyage'' (Num 0.8) ex_a1]]"
  note inst = aggregate_merge [where k = 3 and rss = ?rss and cfg = ex_cfg and e = ex_env
      and d = True and limit = 5 and minScore = 0 and qv = "[1, 0]" and cs = "[]"
      and a = "toResult ex_env ''conv_projB_voyage'' (Num 0.9) ex_b1"
      and b = "toResult ex_env ''conv_projA_voyage'' (Num 0.8) ex_a1"]
  from inst have eq: "aggregate (real 3) ?rss = take 3 (sort_desc sr_score (concat ?rss))"
    by (rule conjunct1)
  from inst have len: "3 \<le> length (concat ?rss) \<longrightarrow> length (aggregate (real 3) ?rss) = 3"
    by blast
  from inst have srt: "(\<forall>r \<in> set (concat ?rss). sr_score r \<noteq> NaN) \<longrightarrow>
        sorted_wrt (\<lambda>a b. \<not> js_positive (js_minus (sr_score b) (sr_score a)))
          (aggregate (real 3) ?rss)"
    by blast
  have nn: "\<forall>r \<in> set (concat ?rss). sr_score r \<noteq> NaN"
    by simp
  have three: "3 \<le> length (concat ?rss)"
    by simp
  have val: "aggregate (real 3) ?rss =
     [toResult ex_env ''conv_projB_voyage'' (Num 0.9) ex_b1,
      toResult ex_env ''conv_projA_voyage'' (Num 0.8) ex_a1,
      toResult ex_env ''conv_projB_voyage'' (Num 0.8) ex_a1]"
    unfolding eq by simp
  from val three len srt nn show ?thesis by blast
qed

subsection \<open>A timestamp that is absent or does not parse\<close>




subsection \<open>The text search\<close>

text \<open>
  Claim C7, as amended. Without an embedding service the handler scrolls each collection
  once, asking for 100 points; the results of the collection are the matching points of
  the page, each with score 0.5, and a page of at most 100 points gives at most 100
  results. The pieces that \<open>split(/\s+/)\<close> makes of the query are its whitespace-delimited
  tokens, in order, with an empty piece in front when the query is empty or begins with
  whitespace, and an empty piece behind when it ends with whitespace. A point matches
  exactly when the query is empty, or begins or ends with whitespace, or the lower-cased
  text of the point contains the lower-cased form of one of the tokens of the query.
\<close>

theorem text_search_matching:
  "fst (textSearchCollection e q c) =
     [Scroll c \<lparr> sc_limit = 100, sc_with_payload = True, sc_with_vector = False \<rparr>]
   \<and> (\<forall>points. scroll e c scrollParams = Some points \<longrightarrow>
         snd (textSearchCollection e q c) =
           map (toResult e c (Num 0.5)) (filter (textMatches q) points)
         \<and> (length points \<le> 100 \<longrightarrow> length (snd (textSearchCollection e q c)) \<le> 100))
   \<and> (\<forall>r \<in> set (snd (textSearchCollection e q c)). sr_score r = Num 0.5)
   \<and> split_ws q =
       (if q = [] \<or> is_space (hd q) then [[]] else []) @ spec_tokens q
       @ (if q \<noteq> [] \<and> is_space (last q) then [[]] else [])
   \<and> textMatches q p =
       (q = [] \<or> is_space (hd q) \<or> is_space (last q)
        \<or> (\<exists>w \<in> set (spec_tokens q).
              sublist (toLowerCase w) (toLowerCase (js_or (pl p p_text) []))))"
proof -
  have call: "fst (textSearchCollection e q c) =
     [Scroll c \<lparr> sc_limit = 100, sc_with_payload = True, sc_with_vector = False \<rparr>]"
    by (simp add: fst_textSearchCollection scrollParams_def)
  have res: "snd (textSearchCollection e q c) =
           map (toResult e c (Num 0.5)) (filter (textMatches q) points)
         \<and> (length points \<le> 100 \<longrightarrow> length (snd (textSearchCollection e q c)) \<le> 100)"
    if "scroll e c scrollParams = Some points" for points
  proof -
    have eq: "snd (textSearchCollection e q c) =
        map (toResult e c (Num 0.5)) (filter (textMatches q) points)"
      by (simp add: snd_textSearchCollection that)
    have le: "length (filter (textMatches q) points) \<le> length points"
      by (rule length_filter_le)
    have "length (snd (textSearchCollection e q c)) \<le> 100" if "length points \<le> 100"
      using order_trans [OF le that] by (simp add: eq)
    with eq show ?thesis by blast
  qed
  have score: "\<forall>r \<in> set (snd (textSearchCollection e q c)). sr_score r = Num 0.5"
    by (auto simp: snd_textSearchCollection split: option.splits)
  have m: "textMatches q p =
       (q = [] \<or> is_space (hd q) \<or> is_space (last q)
        \<or> (\<exists>w \<in> set (spec_tokens q).
              sublist (toLowerCase w) (toLowerCase (js_or (pl p p_text) []))))"
    using textMatches_tokens [of q p] by blast
  from call res score split_ws_tokens [of q] m show ?thesis by blast
qed

text \<open>
  The query of the two tokens \<open>zzz\<close> and \<open>Indexing\<close>, two spaces apart, matches the first
  point of collection \<open>conv_projA_voyage\<close> and not the second; it matches the text
  \<open>Discussed Database INDEXING strategy\<close> of the point \<open>b1\<close>, by its second token.
\<close>

theorem text_search_matching_witness:
  "scroll ex_env_degraded ''conv_projA_voyage'' scrollParams = Some [ex_a1, ex_a2]
   \<and> length [ex_a1, ex_a2] \<le> 100
   \<and> split_ws ''zzz  Indexing'' = [''zzz'', ''Indexing'']
   \<and> spec_tokens ''zzz  Indexing'' = [''zzz'', ''Indexing'']
   \<and> snd (textSearchCollection ex_env_degraded ''zzz  Indexing'' ''conv_projA_voyage'') =
       [toResult ex_env_degraded ''conv_projA_voyage'' (Num 0.5) ex_a1]
   \<and> sr_score (toResult ex_env_degraded ''conv_projA_voyage'' (Num 0.5) ex_a1) = Num 0.5
   \<and> length (snd (textSearchCollection ex_env_degraded ''zzz  Indexing'' ''conv_projA_voyage'')) \<le> 100
   \<and> textMatches ''zzz  Indexing'' ex_b1
   \<and> js_or (pl ex_b1 p_text) [] = ''Discussed Database INDEXING strategy''
   \<and> sublist (toLowerCase ''Indexing'') (toLowerCase ''Discussed Database INDEXING strategy'')
   \<and> \<not> textMatches ''zzz  Indexing'' ex_a2"
proof -
  let ?c = "''conv_projA_voyage''"
  let ?q = "''zzz  Indexing''"
  have sc: "scroll ex_env_degraded ?c scrollParams = Some [ex_a1, ex_a2]"
    by (simp add: ex_scroll_def ex_store_def scrollParams_def)
  note inst = text_search_matching [of ex_env_degraded ?q ?c ex_b1]
  from inst sc have "snd (textSearchCollection ex_env_degraded ?q ?c) =
      map (toResult ex_env_degraded ?c (Num 0.5)) (filter (textMatches ?q) [ex_a1, ex_a2])
    \<and> (length [ex_a1, ex_a2] \<le> 100 \<longrightarrow>
         length (snd (textSearchCollection ex_env_degraded ?q ?c)) \<le> 100)"
    by blast
  then have r: "snd (textSearchCollection ex_env_degraded ?q ?c) =
       [toResult ex_env_degraded ?c (Num 0.5) ex_a1]
     \<and> length (snd (textSearchCollection ex_env_degraded ?q ?c)) \<le> 100"
    by (simp add: ex_matches_two)
  have tx: "js_or (pl ex_b1 p_text) [] = ''Discussed Database INDEXING strategy''"
    by (simp add: js_or_def pl_def ex_b1_def ex_point_def ex_payload_def)
  have sub: "sublist (toLowerCase ''Indexing'') (toLowerCase ''Discussed Database INDEXING strategy'')"
    unfolding js_includes_sublist [symmetric] by code_simp
  from sc r ex_tokens(1,2) ex_matches_two(2,3) tx sub show ?thesis by simp
qed

text \<open>
  Claim C7 as stated says that a point matches only if its text contains a token of the
  query. The query \<open>zzz\<close> followed by a space has the one token \<open>zzz\<close>, which the text
  \<open>unrelated notes\<close> does not contain; the point \<open>a2\<close> matches all the same, by the empty
  piece that the split leaves after the space, and both points of the page are results.
\<close>

theorem text_search_trailing_space_counterexample:
  "spec_tokens ''zzz '' = [''zzz'']
   \<and> js_or (pl ex_a2 p_text) [] = ''unrelated notes''
   \<and> \<not> sublist (toLowerCase ''zzz'') (toLowerCase ''unrelated notes'')
   \<and> textMatches ''zzz '' ex_a2
   \<and> snd (textSearchCollection ex_env_degraded ''zzz '' ''conv_projA_voyage'') =
       [toResult ex_env_degraded ''conv_projA_voyage'' (Num 0.5) ex_a1,
        toResult ex_env_degraded ''conv_projA_voyage'' (Num 0.5) ex_a2]"
proof -
  have tx: "js_or (pl ex_a2 p_text) [] = ''unrelated notes''"
    by (simp add: js_or_def pl_def ex_a2_def ex_point_def ex_payload_def)
  have sub: "\<not> sublist (toLowerCase ''zzz'') (toLowerCase ''unrelated notes'')"
    unfolding js_includes_sublist [symmetric] by code_simp
  have res: "snd (textSearchCollection ex_env_degraded ''zzz '' ''conv_projA_voyage'') =
       [toResult ex_env_degraded ''conv_projA_voyage'' (Num 0.5) ex_a1,
        toResult ex_env_degraded ''conv_projA_voyage'' (Num 0.5) ex_a2]"
    by (simp add: snd_textSearchCollection ex_scroll_def ex_store_def scrollParams_def
        ex_matches_trailing)
  from ex_tokens(3) tx sub ex_matches_trailing(2) res show ?thesis by simp
qed

subsection \<open>Malformed requests\<close>




subsection \<open>Rendering of the excerpt\<close>

text \<open>
  Claim C9, as amended. The excerpt of every result is the first 500 characters of the
  stored text (the empty string when the point has none) followed by the marker \<open>...\<close>.
  The marker is appended whether or not the text was cut: a text of 500 characters or
  fewer is rendered as the whole text followed by the marker.
\<close>

theorem excerpt_always_marked:
  "sr_excerpt (toResult e c sc p) = take 500 (js_or (pl p p_text) []) @ ''...''
   \<and> length (sr_excerpt (toResult e c sc p)) = min 500 (length (js_or (pl p p_text) [])) + 3
   \<and> (length (js_or (pl p p_text) []) \<le> 500 \<longrightarrow>
        sr_excerpt (toResult e c sc p) = js_or (pl p p_text) [] @ ''...'')"
  by (simp add: toResult_def excerptOf_def min_def)

text \<open>
  The text \<open>unrelated notes\<close> of the point \<open>a2\<close> is rendered with the marker after it.
\<close>

theorem excerpt_always_marked_witness:
  "length (js_or (pl ex_a2 p_text) []) \<le> 500
   \<and> sr_excerpt (toResult ex_env ''conv_projA_voyage'' (Num 0.5) ex_a2) = ''unrelated notes...''"
  using excerpt_always_marked [of ex_env "''conv_projA_voyage''" "Num 0.5" ex_a2]
  by (simp add: ex_a2_def ex_point_def ex_payload_def pl_def js_or_def)

text \<open>
  Claim C9 as stated says that a text of 500 characters or fewer is rendered unchanged.
  The text \<open>unrelated notes\<close> has 15 characters and is rendered with the marker.
\<close>

theorem excerpt_short_text_counterexample:
  "sr_excerpt (toResult ex_env ''conv_projA_voyage'' (Num 0.5) ex_a2) = ''unrelated notes...''
   \<and> length ''unrelated notes'' \<le> 500
   \<and> sr_excerpt (toResult ex_env ''conv_projA_voyage'' (Num 0.5) ex_a2) \<noteq> ''unrelated notes''"
  by (simp add: toResult_def excerptOf_def ex_a2_def ex_point_def ex_payload_def pl_def js_or_def)

subsection \<open>The text search with a blank query\<close>

text \<open>
  Claim C10. Without an embedding service, a query that is empty or made of whitespace
  only is split into pieces among which is the empty string, which every text contains:
  every point of every page matches, and the response holds the first \<open>limit\<close> points
  scrolled, in the order of the collections.
\<close>

theorem blank_query_matches_all:
  assumes blank: "\<forall>ch \<in> set (a_query a). is_space ch"
  shows "[] \<in> set (split_ws (toLowerCase (a_query a)))
    \<and> (\<forall>p :: real point. textMatches (a_query a) p)
    \<and> snd (textSearchCollection e (a_query a) c) =
        (case scroll e c scrollParams of
           None \<Rightarrow> []
         | Some points \<Rightarrow> map (toResult e c (Num 0.5)) points)
    \<and> (embeddingService (fst (handleReflectOnPast cfg e s0 (Some a))) = None \<longrightarrow>
         snd (snd (handleReflectOnPast cfg e s0 (Some a))) =
           Inr (snd (finish (js_slice0
             (concat (map (\<lambda>c. case scroll e c scrollParams of
                                   None \<Rightarrow> []
                                 | Some points \<Rightarrow> map (toResult e c (Num 0.5)) points)
                        (getVoyageCollections e)))
             (limitOf a)))))"
proof -
  have "\<forall>ch \<in> set (toLowerCase (a_query a)). is_space ch"
    using blank by (simp add: toLowerCase_def)
  then have "split_ws (toLowerCase (a_query a)) =
      (if toLowerCase (a_query a) = [] then [[]] else [[], []])"
    by (rule split_ws_spaces)
  then have tok: "[] \<in> set (split_ws (toLowerCase (a_query a)))"
    by simp
  have all: "textMatches (a_query a) p" for p :: "real point"
    using blank by (rule textMatches_blank)
  then have flt: "filter (textMatches (a_query a)) points = points" for points :: "real point list"
    by simp
  have one: "snd (textSearchCollection e (a_query a) c) =
        (case scroll e c scrollParams of
           None \<Rightarrow> []
         | Some points \<Rightarrow> map (toResult e c (Num 0.5)) points)" for c
    by (simp add: snd_textSearchCollection flt cong: option.case_cong)
  have whole: "snd (snd (handleReflectOnPast cfg e s0 (Some a))) =
           Inr (snd (finish (js_slice0
             (concat (map (\<lambda>c. case scroll e c scrollParams of
                                   None \<Rightarrow> []
                                 | Some points \<Rightarrow> map (toResult e c (Num 0.5)) points)
                        (getVoyageCollections e)))
             (limitOf a))))"
    if "embeddingService (fst (handleReflectOnPast cfg e s0 (Some a))) = None"
    using handle_degraded [OF that] by (simp add: one)
  from tok all one whole show ?thesis by blast
qed

text \<open>
  The query of two spaces with limit 2: the two points of the first collection are
  returned, the second of which holds the text \<open>unrelated notes\<close>.
\<close>

theorem blank_query_matches_all_witness:
  "is_space CHR '' ''
   \<and> textMatches ''  '' ex_a2
   \<and> snd (textSearchCollection ex_env_degraded ''  '' ''conv_projA_voyage'') =
       [toResult ex_env_degraded ''conv_projA_voyage'' (Num 0.5) ex_a1,
        toResult ex_env_degraded ''conv_projA_voyage'' (Num 0.5) ex_a2]
   \<and> embeddingService (fst (handleReflectOnPast ex_cfg ex_env_degraded ex_server
                              (Some (ex_args ''  '' (Some 2) None None)))) = None
   \<and> snd (snd (handleReflectOnPast ex_cfg ex_env_degraded ex_server
                 (Some (ex_args ''  '' (Some 2) None None)))) =
       Inr (Found [toResult ex_env_degraded ''conv_projA_voyage'' (Num 0.5) ex_a1,
                   toResult ex_env_degraded ''conv_projA_voyage'' (Num 0.5) ex_a2])"
proof -
  let ?a = "ex_args ''  '' (Some 2) None None"
  have sp: "is_space CHR '' ''"
    by (simp add: is_space_def)
  then have blank: "\<forall>ch \<in> set (a_query ?a). is_space ch"
    by simp
  have none: "embeddingService (fst (handleReflectOnPast ex_cfg ex_env_degraded ex_server (Some ?a))) = None"
    by (simp add: ex_handle_degraded)
  have voy: "getVoyageCollections ex_env_degraded =
      [''conv_projA_voyage'', ''conv_projB_voyage'', ''conv_down_voyage'']"
    using ex_voyage by (simp add: getVoyageCollections_def ex_env_degraded_def)
  note inst = blank_query_matches_all [OF blank, of ex_env_degraded "''conv_projA_voyage''"
      ex_cfg ex_server]
  from inst have m: "textMatches ''  '' ex_a2"
    by simp
  from inst have one: "snd (textSearchCollection ex_env_degraded ''  '' ''conv_projA_voyage'') =
       [toResult ex_env_degraded ''conv_projA_voyage'' (Num 0.5) ex_a1,
        toResult ex_env_degraded ''conv_projA_voyage'' (Num 0.5) ex_a2]"
    by (simp add: ex_scroll_def ex_store_def scrollParams_def)
  from inst none have "snd (snd (handleReflectOnPast ex_cfg ex_env_degraded ex_server (Some ?a))) =
           Inr (snd (finish (js_slice0
             (concat (map (\<lambda>c. case scroll ex_env_degraded c scrollParams of
                                   None \<Rightarrow> []
                                 | Some points \<Rightarrow> map (toResult ex_env_degraded c (Num 0.5)) points)
                        (getVoyageCollections ex_env_degraded)))
             (limitOf ?a))))"
    by blast
  then have whole: "snd (snd (handleReflectOnPast ex_cfg ex_env_degraded ex_server (Some ?a))) =
       Inr (Found [toResult ex_env_degraded ''conv_projA_voyage'' (Num 0.5) ex_a1,
                   toResult ex_env_degraded ''conv_projA_voyage'' (Num 0.5) ex_a2])"
    by (simp add: voy ex_scroll_def ex_store_def scrollParams_def js_slice0_def js_trunc_def
        finish_def)
  from sp m one none whole show ?thesis by blast
qed

end
